theory Spec2Isabelle
  imports Main "HOL-Library.AList"
begin

section \<open>The Celery instrumentation of opentelemetry-ext-celery\<close>

text \<open>
  The module \<^verbatim>\<open>opentelemetry/ext/celery/__init__.py\<close> connects six receivers to
  Celery's signals and turns the signals into calls on the tracing API. The embedding
  below follows the module function by function. The tracing API, Celery's signal
  objects and the module \<^verbatim>\<open>opentelemetry.ext.celery.utils\<close> are not part of the
  file; their models are marked where they are introduced.
\<close>

subsection \<open>Constants of the module\<close>

definition TASK_TAG_KEY :: string where
  "TASK_TAG_KEY = ''celery.action''"

definition TASK_APPLY_ASYNC :: string where
  "TASK_APPLY_ASYNC = ''apply_async''"

definition TASK_RUN :: string where
  "TASK_RUN = ''run''"

definition TASK_RETRY_REASON_KEY :: string where
  "TASK_RETRY_REASON_KEY = ''celery.retry.reason''"

definition TASK_NAME_KEY :: string where
  "TASK_NAME_KEY = ''celery.task_name''"

definition MESSAGE_ID_ATTRIBUTE_NAME :: string where
  "MESSAGE_ID_ATTRIBUTE_NAME = ''messaging.message_id''"

subsection \<open>Spans, statuses and the tracer\<close>

text \<open>
  Modelled from the spec: the tracing API (\<^verbatim>\<open>opentelemetry.trace\<close>) is missing from
  the sources; the spec names its calls: "start a span, attach attributes, set a
  status/error outcome, and end a span". The module uses it through five calls: \<^verbatim>\<open>start_span\<close>,
  \<^verbatim>\<open>use_span\<close> (with the \<^verbatim>\<open>__enter__\<close> and \<^verbatim>\<open>__exit__\<close> of the
  activation it returns), \<^verbatim>\<open>set_attribute\<close>, \<^verbatim>\<open>set_status\<close> and, through
  \<^verbatim>\<open>end_on_exit\<close>, \<^verbatim>\<open>end\<close>. A span of the model is the record of the calls
  made on one span object: the name and kind it was started with, the attributes and the
  status last set on it, and how often it was ended. A span object is referred to by its
  index in the list of all spans started so far.
\<close>

datatype span_kind = INTERNAL | SERVER | CLIENT | PRODUCER | CONSUMER

text \<open>Of the canonical codes only \<^verbatim>\<open>UNKNOWN\<close> is used by the module.\<close>

datatype status_canonical_code = OK | CANCELLED | UNKNOWN

record status =
  canonical_code :: status_canonical_code
  description :: string

record span =
  span_name :: string
  kind :: span_kind
  parent :: "nat option"
  attributes :: "(string \<times> string) list"
  span_status :: "status option"
  end_calls :: nat

record activation =
  act_span :: nat
  end_on_exit :: bool
  token :: "nat option"

datatype log_level = DEBUG | WARNING

text \<open>
  The key of the side table: the identity of the task object, the task id of the
  execution, and the direction (\<^verbatim>\<open>is_publish\<close>).
\<close>

type_synonym span_key = "nat \<times> string \<times> bool"

record tracing =
  spans :: "span list"
  current_span :: "nat option"
  span_dict :: "(span_key \<times> (nat \<times> activation)) list"
  log_records :: "(log_level \<times> string) list"

definition logger :: "log_level \<Rightarrow> string \<Rightarrow> tracing \<Rightarrow> tracing" where
  "logger lvl msg s = s\<lparr>log_records := log_records s @ [(lvl, msg)]\<rparr>"

definition start_span :: "string \<Rightarrow> span_kind \<Rightarrow> tracing \<Rightarrow> nat \<times> tracing" where
  "start_span nm k s =
     (length (spans s),
      s\<lparr>spans := spans s @
         [\<lparr>span_name = nm, kind = k, parent = current_span s, attributes = [],
           span_status = None, end_calls = 0\<rparr>]\<rparr>)"

text \<open>
  A call on a span object changes that span only. A reference that is not the index of
  a started span cannot arise from \<open>start_span\<close>; the call then changes nothing.
\<close>

definition on_span :: "nat \<Rightarrow> (span \<Rightarrow> span) \<Rightarrow> tracing \<Rightarrow> tracing" where
  "on_span r f s =
     (if r < length (spans s) then s\<lparr>spans := (spans s)[r := f (spans s ! r)]\<rparr> else s)"

definition set_attribute :: "nat \<Rightarrow> string \<Rightarrow> string \<Rightarrow> tracing \<Rightarrow> tracing" where
  "set_attribute r k v = on_span r (\<lambda>sp. sp\<lparr>attributes := AList.update k v (attributes sp)\<rparr>)"

definition set_status :: "nat \<Rightarrow> status \<Rightarrow> tracing \<Rightarrow> tracing" where
  "set_status r st = on_span r (\<lambda>sp. sp\<lparr>span_status := Some st\<rparr>)"

definition span_end :: "nat \<Rightarrow> tracing \<Rightarrow> tracing" where
  "span_end r = on_span r (\<lambda>sp. sp\<lparr>end_calls := Suc (end_calls sp)\<rparr>)"

definition use_span :: "nat \<Rightarrow> bool \<Rightarrow> activation" where
  "use_span r e = \<lparr>act_span = r, end_on_exit = e, token = None\<rparr>"

definition activation_enter :: "activation \<Rightarrow> tracing \<Rightarrow> activation \<times> tracing" where
  "activation_enter a s =
     (a\<lparr>token := current_span s\<rparr>, s\<lparr>current_span := Some (act_span a)\<rparr>)"

definition activation_exit :: "activation \<Rightarrow> tracing \<Rightarrow> tracing" where
  "activation_exit a s =
     (let s' = s\<lparr>current_span := token a\<rparr>
      in if end_on_exit a then span_end (act_span a) s' else s')"

subsection \<open>Tasks and signal payloads\<close>

text \<open>
  An exception object carries its class and the classes that class derives from;
  \<^verbatim>\<open>isinstance(e, classes)\<close> holds when the class of \<open>e\<close> or one of its base
  classes is among \<open>classes\<close>.
\<close>

record exc =
  exc_type :: string
  exc_bases :: "string list"
  exc_str :: string

record einfo =
  exception :: exc
  einfo_str :: string

definition isinstance :: "exc \<Rightarrow> string list \<Rightarrow> bool" where
  "isinstance e classes = list_ex (\<lambda>c. c \<in> set classes) (exc_type e # exc_bases e)"

text \<open>
  A task object: its identity, its name, the attribute \<^verbatim>\<open>throws\<close> (\<open>None\<close> when the
  object has no such attribute, the case that \<^verbatim>\<open>hasattr\<close> guards) and the context
  of its current request, given by the attributes that
  \<^verbatim>\<open>utils.set_attributes_from_context\<close> records for it.
\<close>

record task =
  task_ident :: nat
  task_name :: string
  throws :: "string list option"
  request :: "(string \<times> string) list"

text \<open>
  The reason of a retry is an exception or, as the comment in \<^verbatim>\<open>_trace_retry\<close> says,
  something that is not one; only its \<^verbatim>\<open>str\<close> is used.
\<close>

datatype reason = ExcReason exc | TextReason string

fun str_reason :: "reason \<Rightarrow> string" where
  "str_reason (ExcReason e) = exc_str e"
| "str_reason (TextReason t) = t"

text \<open>
  The keyword arguments of a signal. A field is \<open>None\<close> when the payload does not carry
  it (or carries Python's \<^verbatim>\<open>None\<close>, which \<^verbatim>\<open>kwargs.get\<close> does not tell apart).
\<close>

record kwargs =
  kw_task :: "task option"
  kw_task_id :: "string option"
  kw_sender :: "task option"
  kw_message_id :: "string option"
  kw_request_id :: "string option"
  kw_reason :: "reason option"
  kw_einfo :: "einfo option"
  kw_context :: "(string \<times> string) list"

subsection \<open>The helpers of \<^verbatim>\<open>opentelemetry.ext.celery.utils\<close>\<close>

text \<open>
  Modelled from the spec: the six \<^verbatim>\<open>signal_retrieve_*\<close> functions of the module
  \<^verbatim>\<open>utils\<close> are missing from the sources. Each reads one identifier from the payload;
  the spec says that an absent one is logged: "if expected correlating identifiers are
  absent from an event payload, the handler logs and returns without raising".
\<close>

definition retrieve_field :: "'a option \<Rightarrow> string \<Rightarrow> tracing \<Rightarrow> 'a option \<times> tracing" where
  "retrieve_field v what s =
     (v, if v = None then logger DEBUG (''Unable to retrieve '' @ what) s else s)"

definition signal_retrieve_task :: "kwargs \<Rightarrow> tracing \<Rightarrow> task option \<times> tracing" where
  "signal_retrieve_task kw = retrieve_field (kw_task kw) ''task''"

definition signal_retrieve_task_from_sender :: "kwargs \<Rightarrow> tracing \<Rightarrow> task option \<times> tracing" where
  "signal_retrieve_task_from_sender kw = retrieve_field (kw_sender kw) ''sender''"

definition signal_retrieve_task_id :: "kwargs \<Rightarrow> tracing \<Rightarrow> string option \<times> tracing" where
  "signal_retrieve_task_id kw = retrieve_field (kw_task_id kw) ''task_id''"

definition signal_retrieve_task_id_from_message ::
  "kwargs \<Rightarrow> tracing \<Rightarrow> string option \<times> tracing" where
  "signal_retrieve_task_id_from_message kw = retrieve_field (kw_message_id kw) ''message id''"

definition signal_retrieve_task_id_from_request ::
  "kwargs \<Rightarrow> tracing \<Rightarrow> string option \<times> tracing" where
  "signal_retrieve_task_id_from_request kw = retrieve_field (kw_request_id kw) ''request id''"

definition signal_retrieve_reason :: "kwargs \<Rightarrow> tracing \<Rightarrow> reason option \<times> tracing" where
  "signal_retrieve_reason kw = retrieve_field (kw_reason kw) ''reason''"

text \<open>
  Modelled from the spec: \<^verbatim>\<open>attach_span\<close>, \<^verbatim>\<open>detach_span\<close> and \<^verbatim>\<open>retrieve_span\<close> of
  the module \<^verbatim>\<open>utils\<close> are missing from the sources. The spec says that the association
  between a task and its span is "stored in a side table keyed by (task identity,
  execution identifier, direction)", with "insert on start/publish, remove on matching end
  event". \<^verbatim>\<open>retrieve_span\<close> returns the stored pair, or no pair (Python's
  \<^verbatim>\<open>(None, None)\<close>) when the key is absent.
\<close>

definition attach_span ::
  "task \<Rightarrow> string \<Rightarrow> nat \<times> activation \<Rightarrow> bool \<Rightarrow> tracing \<Rightarrow> tracing" where
  "attach_span t task_id v is_publish s =
     s\<lparr>span_dict := AList.update (task_ident t, task_id, is_publish) v (span_dict s)\<rparr>"

definition detach_span :: "task \<Rightarrow> string \<Rightarrow> bool \<Rightarrow> tracing \<Rightarrow> tracing" where
  "detach_span t task_id is_publish s =
     s\<lparr>span_dict := AList.delete (task_ident t, task_id, is_publish) (span_dict s)\<rparr>"

definition retrieve_span ::
  "task \<Rightarrow> string \<Rightarrow> bool \<Rightarrow> tracing \<Rightarrow> (nat \<times> activation) option" where
  "retrieve_span t task_id is_publish s =
     map_of (span_dict s) (task_ident t, task_id, is_publish)"

text \<open>
  Modelled from the spec: \<^verbatim>\<open>set_attributes_from_context\<close> of the module \<^verbatim>\<open>utils\<close> is
  missing from the sources. The spec says only that the "attributes recorded match the
  event payload fields"; a context is therefore represented by the attribute names and
  values that the helper records for it, and they are set on the span in order.
\<close>

definition set_attributes_from_context ::
  "nat \<Rightarrow> (string \<times> string) list \<Rightarrow> tracing \<Rightarrow> tracing" where
  "set_attributes_from_context r ctx s = fold (\<lambda>(k, v). set_attribute r k v) ctx s"

subsection \<open>The six receivers\<close>

definition trace_prerun :: "kwargs \<Rightarrow> tracing \<Rightarrow> tracing" where
  "trace_prerun kw s0 =
     (let (task, s1) = signal_retrieve_task kw s0;
          (task_id, s2) = signal_retrieve_task_id kw s1
      in case (task, task_id) of
           (Some t, Some i) \<Rightarrow>
             (let s3 = logger DEBUG (''prerun signal start task_id='' @ i) s2;
                  (sp, s4) = start_span (task_name t) CONSUMER s3;
                  (act, s5) = activation_enter (use_span sp True) s4
              in attach_span t i (sp, act) False s5)
         | _ \<Rightarrow> s2)"

definition trace_postrun :: "kwargs \<Rightarrow> tracing \<Rightarrow> tracing" where
  "trace_postrun kw s0 =
     (let (task, s1) = signal_retrieve_task kw s0;
          (task_id, s2) = signal_retrieve_task_id kw s1
      in case (task, task_id) of
           (Some t, Some i) \<Rightarrow>
             (let s3 = logger DEBUG (''postrun signal task_id='' @ i) s2
              in case retrieve_span t i False s3 of
                   None \<Rightarrow> logger WARNING (''no existing span found for task_id='' @ i) s3
                 | Some (sp, act) \<Rightarrow>
                     (let s4 = set_attribute sp TASK_TAG_KEY TASK_RUN s3;
                          s5 = set_attributes_from_context sp (kw_context kw) s4;
                          s6 = set_attributes_from_context sp (request t) s5;
                          s7 = set_attribute sp TASK_NAME_KEY (task_name t) s6;
                          s8 = activation_exit act s7
                      in detach_span t i False s8))
         | _ \<Rightarrow> s2)"

definition trace_before_publish :: "kwargs \<Rightarrow> tracing \<Rightarrow> tracing" where
  "trace_before_publish kw s0 =
     (let (task, s1) = signal_retrieve_task_from_sender kw s0;
          (task_id, s2) = signal_retrieve_task_id_from_message kw s1
      in case (task, task_id) of
           (Some t, Some i) \<Rightarrow>
             (let (sp, s3) = start_span (task_name t) PRODUCER s2;
                  s4 = set_attribute sp TASK_TAG_KEY TASK_APPLY_ASYNC s3;
                  s5 = set_attribute sp MESSAGE_ID_ATTRIBUTE_NAME i s4;
                  s6 = set_attribute sp TASK_NAME_KEY (task_name t) s5;
                  s7 = set_attributes_from_context sp (kw_context kw) s6;
                  (act, s8) = activation_enter (use_span sp True) s7
              in attach_span t i (sp, act) True s8)
         | _ \<Rightarrow> s2)"

definition trace_after_publish :: "kwargs \<Rightarrow> tracing \<Rightarrow> tracing" where
  "trace_after_publish kw s0 =
     (let (task, s1) = signal_retrieve_task_from_sender kw s0;
          (task_id, s2) = signal_retrieve_task_id_from_message kw s1
      in case (task, task_id) of
           (Some t, Some i) \<Rightarrow>
             (case retrieve_span t i True s2 of
                None \<Rightarrow> logger WARNING (''no existing span found for task_id='' @ i) s2
              | Some (sp, act) \<Rightarrow> detach_span t i True (activation_exit act s2))
         | _ \<Rightarrow> s2)"

definition trace_failure :: "kwargs \<Rightarrow> tracing \<Rightarrow> tracing" where
  "trace_failure kw s0 =
     (let (task, s1) = signal_retrieve_task_from_sender kw s0;
          (task_id, s2) = signal_retrieve_task_id kw s1
      in case (task, task_id) of
           (Some t, Some i) \<Rightarrow>
             (case retrieve_span t i False s2 of
                None \<Rightarrow> s2
              | Some (sp, act) \<Rightarrow>
                  (case kw_einfo kw of
                     None \<Rightarrow> s2
                   | Some ex \<Rightarrow>
                       if (case throws t of
                             None \<Rightarrow> False
                           | Some classes \<Rightarrow> isinstance (exception ex) classes)
                       then s2
                       else set_status sp
                              \<lparr>canonical_code = UNKNOWN, description = einfo_str ex\<rparr> s2))
         | _ \<Rightarrow> s2)"

definition trace_retry :: "kwargs \<Rightarrow> tracing \<Rightarrow> tracing" where
  "trace_retry kw s0 =
     (let (task, s1) = signal_retrieve_task_from_sender kw s0;
          (task_id, s2) = signal_retrieve_task_id_from_request kw s1;
          (rsn, s3) = signal_retrieve_reason kw s2
      in case (task, task_id, rsn) of
           (Some t, Some i, Some r) \<Rightarrow>
             (case retrieve_span t i False s3 of
                None \<Rightarrow> s3
              | Some (sp, act) \<Rightarrow>
                  set_attribute sp TASK_RETRY_REASON_KEY (str_reason r) s3)
         | _ \<Rightarrow> s3)"

subsection \<open>Celery's signals and the registration of the receivers\<close>

text \<open>
  Celery's signal objects belong to the host library. A signal keeps the list of its
  receivers: \<^verbatim>\<open>connect\<close> appends a receiver that is not yet connected,
  \<^verbatim>\<open>disconnect\<close> removes it. Sending a signal calls its receivers in order with the
  keyword arguments of the signal.
\<close>

datatype signal =
    task_prerun | task_postrun | before_task_publish | after_task_publish
  | task_failure | task_retry | task_success | task_revoked | task_rejected | task_unknown

datatype receiver =
    Trace_prerun | Trace_postrun | Trace_before_publish | Trace_after_publish
  | Trace_failure | Trace_retry | Foreign nat

type_synonym signals = "signal \<Rightarrow> receiver list"

definition connect :: "signal \<Rightarrow> receiver \<Rightarrow> signals \<Rightarrow> signals" where
  "connect sg r reg = (if r \<in> set (reg sg) then reg else reg(sg := reg sg @ [r]))"

definition disconnect :: "signal \<Rightarrow> receiver \<Rightarrow> signals \<Rightarrow> signals" where
  "disconnect sg r reg = reg(sg := remove1 r (reg sg))"

definition instrument :: "signals \<Rightarrow> signals" where
  "instrument reg0 =
     (let reg1 = connect task_prerun Trace_prerun reg0;
          reg2 = connect task_postrun Trace_postrun reg1;
          reg3 = connect before_task_publish Trace_before_publish reg2;
          reg4 = connect after_task_publish Trace_after_publish reg3;
          reg5 = connect task_failure Trace_failure reg4
      in connect task_retry Trace_retry reg5)"

definition uninstrument :: "signals \<Rightarrow> signals" where
  "uninstrument reg0 =
     (let reg1 = disconnect task_prerun Trace_prerun reg0;
          reg2 = disconnect task_postrun Trace_postrun reg1;
          reg3 = disconnect before_task_publish Trace_before_publish reg2;
          reg4 = disconnect after_task_publish Trace_after_publish reg3;
          reg5 = disconnect task_failure Trace_failure reg4
      in disconnect task_retry Trace_retry reg5)"

fun receive :: "receiver \<Rightarrow> kwargs \<Rightarrow> tracing \<Rightarrow> tracing" where
  "receive Trace_prerun kw s = trace_prerun kw s"
| "receive Trace_postrun kw s = trace_postrun kw s"
| "receive Trace_before_publish kw s = trace_before_publish kw s"
| "receive Trace_after_publish kw s = trace_after_publish kw s"
| "receive Trace_failure kw s = trace_failure kw s"
| "receive Trace_retry kw s = trace_retry kw s"
| "receive (Foreign n) kw s = s"

text \<open>A sequence of receiver calls, each with the keyword arguments of its signal.\<close>

fun run :: "(receiver \<times> kwargs) list \<Rightarrow> tracing \<Rightarrow> tracing" where
  "run [] s = s"
| "run ((r, kw) # es) s = run es (receive r kw s)"

subsection \<open>Keys and well-formed states\<close>

text \<open>
  The key under which a receiver call attaches or detaches a span, if it does either:
  the run key of the payload for \<open>Trace_prerun\<close> and \<open>Trace_postrun\<close>, the publish key
  for \<open>Trace_before_publish\<close> and \<open>Trace_after_publish\<close>.
\<close>

definition run_key :: "kwargs \<Rightarrow> span_key option" where
  "run_key kw =
     (case (kw_task kw, kw_task_id kw) of
        (Some t, Some i) \<Rightarrow> Some (task_ident t, i, False)
      | _ \<Rightarrow> None)"

definition publish_key :: "kwargs \<Rightarrow> span_key option" where
  "publish_key kw =
     (case (kw_sender kw, kw_message_id kw) of
        (Some t, Some i) \<Rightarrow> Some (task_ident t, i, True)
      | _ \<Rightarrow> None)"

fun call_key :: "receiver \<times> kwargs \<Rightarrow> span_key option" where
  "call_key (Trace_prerun, kw) = run_key kw"
| "call_key (Trace_postrun, kw) = run_key kw"
| "call_key (Trace_before_publish, kw) = publish_key kw"
| "call_key (Trace_after_publish, kw) = publish_key kw"
| "call_key (_, kw) = None"

text \<open>
  The states the receivers produce: the table is a dictionary (no key twice), no span is
  stored under two keys, and every entry is a started span together with the activation
  made for it with \<^verbatim>\<open>end_on_exit=True\<close>. The state before any signal is well-formed
  (\<open>wf_initial\<close> below) and every receiver call keeps a state well-formed (\<open>wf_receive\<close>).
\<close>

definition wf :: "tracing \<Rightarrow> bool" where
  "wf s \<longleftrightarrow>
     distinct (map fst (span_dict s)) \<and>
     distinct (map (fst \<circ> snd) (span_dict s)) \<and>
     list_all (\<lambda>(k, r, a). r < length (spans s) \<and> act_span a = r \<and> end_on_exit a)
       (span_dict s)"

definition initial :: tracing where
  "initial = \<lparr>spans = [], current_span = None, span_dict = [], log_records = []\<rparr>"

subsection \<open>Observations used in the statements\<close>

text \<open>
  A call only logged: it left the spans, the table and the current span as they were and
  added at least one log record.
\<close>

definition only_logged :: "tracing \<Rightarrow> tracing \<Rightarrow> bool" where
  "only_logged s s' \<longleftrightarrow>
     spans s' = spans s \<and> span_dict s' = span_dict s \<and> current_span s' = current_span s \<and>
     length (log_records s) < length (log_records s')"

text \<open>How often each span was ended, and the name and kind each span was started with.\<close>

definition end_counts :: "tracing \<Rightarrow> nat list" where
  "end_counts s = map end_calls (spans s)"

definition started :: "tracing \<Rightarrow> (string \<times> span_kind) list" where
  "started s = map (\<lambda>sp. (span_name sp, kind sp)) (spans s)"

text \<open>
  The three effects a receiver call can have on the table and on the end counts: none, a
  new span attached under a key, or the span under a key ended and detached.
\<close>

definition keeps :: "tracing \<Rightarrow> tracing \<Rightarrow> bool" where
  "keeps s s' \<longleftrightarrow> span_dict s' = span_dict s \<and> end_counts s' = end_counts s"

definition opens :: "span_key \<Rightarrow> tracing \<Rightarrow> tracing \<Rightarrow> bool" where
  "opens k s s' \<longleftrightarrow>
     (\<exists>a. act_span a = length (spans s) \<and> end_on_exit a \<and>
        span_dict s' = AList.update k (length (spans s), a) (span_dict s)) \<and>
     end_counts s' = end_counts s @ [0]"

definition closes :: "span_key \<Rightarrow> tracing \<Rightarrow> tracing \<Rightarrow> bool" where
  "closes k s s' \<longleftrightarrow>
     (\<exists>r a. map_of (span_dict s) k = Some (r, a) \<and>
        end_counts s' = end_counts (activation_exit a s)) \<and>
     span_dict s' = AList.delete k (span_dict s)"

text \<open>The spans the table refers to.\<close>

definition refs :: "tracing \<Rightarrow> nat set" where
  "refs s = (fst \<circ> snd) ` set (span_dict s)"

text \<open>
  A span that is attached under a key and has not been ended, and a span that is no longer
  in the table and has been ended \<open>n\<close> times.
\<close>

definition open_at :: "span_key \<Rightarrow> nat \<Rightarrow> tracing \<Rightarrow> bool" where
  "open_at k r s \<longleftrightarrow>
     wf s \<and> map_option fst (map_of (span_dict s) k) = Some r \<and> end_counts s ! r = 0"

definition closed_at :: "nat \<Rightarrow> nat \<Rightarrow> tracing \<Rightarrow> bool" where
  "closed_at r n s \<longleftrightarrow>
     wf s \<and> r < length (spans s) \<and> r \<notin> refs s \<and> end_counts s ! r = n"

text \<open>
  The test of \<open>trace_failure\<close> for an expected error: the task has a \<^verbatim>\<open>throws\<close> attribute
  and the exception is an instance of one of its classes.
\<close>

definition expected_error :: "task \<Rightarrow> einfo \<Rightarrow> bool" where
  "expected_error t ex =
     (case throws t of None \<Rightarrow> False | Some classes \<Rightarrow> isinstance (exception ex) classes)"

text \<open>A receiver that is not one of the six of this module.\<close>

fun is_foreign :: "receiver \<Rightarrow> bool" where
  "is_foreign (Foreign n) = True"
| "is_foreign _ = False"

subsection \<open>Example payloads\<close>

text \<open>
  One task with one execution \<^verbatim>\<open>a1\<close>, the payloads of its signals, a sequence of calls
  for the time between its prerun and postrun signals, and signals to which another
  application has connected receivers.
\<close>

definition example_task :: task where
  "example_task =
     \<lparr>task_ident = 1, task_name = ''tasks.add'', throws = Some [''LookupError''],
      request = [(''celery.hostname'', ''worker1'')]\<rparr>"

definition no_kwargs :: kwargs where
  "no_kwargs =
     \<lparr>kw_task = None, kw_task_id = None, kw_sender = None, kw_message_id = None,
      kw_request_id = None, kw_reason = None, kw_einfo = None, kw_context = []\<rparr>"

definition run_kwargs :: kwargs where
  "run_kwargs = no_kwargs\<lparr>kw_task := Some example_task, kw_task_id := Some ''a1''\<rparr>"

definition publish_kwargs :: kwargs where
  "publish_kwargs =
     no_kwargs\<lparr>kw_sender := Some example_task, kw_message_id := Some ''a1'',
       kw_context := [(''celery.exchange'', ''default'')]\<rparr>"

definition key_error :: exc where
  "key_error =
     \<lparr>exc_type = ''KeyError'',
      exc_bases = [''LookupError'', ''Exception'', ''BaseException'', ''object''],
      exc_str = ''missing''\<rparr>"

definition value_error :: exc where
  "value_error =
     \<lparr>exc_type = ''ValueError'', exc_bases = [''Exception'', ''BaseException'', ''object''],
      exc_str = ''bad value''\<rparr>"

definition failure_kwargs :: "exc \<Rightarrow> kwargs" where
  "failure_kwargs e =
     no_kwargs\<lparr>kw_sender := Some example_task, kw_task_id := Some ''a1'',
       kw_einfo := Some \<lparr>exception = e, einfo_str = ''Traceback: '' @ exc_str e\<rparr>\<rparr>"

definition retry_kwargs :: kwargs where
  "retry_kwargs =
     no_kwargs\<lparr>kw_sender := Some example_task, kw_request_id := Some ''a1'',
       kw_reason := Some (ExcReason value_error)\<rparr>"

definition between_calls :: "(receiver \<times> kwargs) list" where
  "between_calls =
     [(Trace_before_publish, publish_kwargs), (Trace_failure, failure_kwargs value_error),
      (Trace_retry, retry_kwargs), (Trace_after_publish, publish_kwargs)]"

definition other_app_signals :: signals where
  "other_app_signals = (\<lambda>sg. [])(task_success := [Foreign 0], task_prerun := [Foreign 1])"

section \<open>Properties of the primitives and of the receivers\<close>

lemmas example_defs =
  example_task_def no_kwargs_def run_kwargs_def publish_kwargs_def key_error_def
  value_error_def failure_kwargs_def retry_kwargs_def

lemma on_span_proj [simp]:
  "length (spans (on_span r f s)) = length (spans s)"
  "span_dict (on_span r f s) = span_dict s"
  "current_span (on_span r f s) = current_span s"
  "log_records (on_span r f s) = log_records s"
  by (simp_all add: on_span_def)

lemma on_span_nth:
  "spans (on_span r f s) ! q = (if q = r \<and> r < length (spans s) then f (spans s ! r) else spans s ! q)"
  by (simp add: on_span_def)

lemma on_span_on_span: "on_span r g (on_span r f s) = on_span r (g \<circ> f) s"
  by (simp add: on_span_def)

lemma set_attributes_from_context_on_span:
  "set_attributes_from_context r ctx s =
     on_span r (\<lambda>sp. sp\<lparr>attributes := fold (\<lambda>(k, v). AList.update k v) ctx (attributes sp)\<rparr>) s"
proof (induction ctx arbitrary: s)
  case Nil
  show ?case by (simp add: set_attributes_from_context_def on_span_def)
next
  case (Cons kv ctx)
  obtain k v where kv: "kv = (k, v)" by (cases kv)
  have "set_attributes_from_context r (kv # ctx) s =
        set_attributes_from_context r ctx (set_attribute r k v s)"
    by (simp add: set_attributes_from_context_def kv)
  also have "\<dots> = on_span r (\<lambda>sp. sp\<lparr>attributes := fold (\<lambda>(k, v). AList.update k v) ctx (attributes sp)\<rparr>) (set_attribute r k v s)"
    by (rule Cons.IH)
  finally show ?case
    by (simp add: set_attribute_def on_span_on_span kv comp_def)
qed

lemma end_counts_on_span:
  assumes "\<And>sp. end_calls (f sp) = end_calls sp"
  shows "map end_calls (spans (on_span r f s)) = map end_calls (spans s)"
  by (rule nth_equalityI) (simp_all add: on_span_nth assms)

lemma retrieve_field_simps [simp]:
  "retrieve_field (Some x) what s = (Some x, s)"
  "retrieve_field None what s = (None, logger DEBUG (''Unable to retrieve '' @ what) s)"
  by (simp_all add: retrieve_field_def)

lemmas retrieve_defs =
  signal_retrieve_task_def signal_retrieve_task_from_sender_def signal_retrieve_task_id_def
  signal_retrieve_task_id_from_message_def signal_retrieve_task_id_from_request_def
  signal_retrieve_reason_def

lemma logger_proj [simp]:
  "spans (logger l m s) = spans s"
  "span_dict (logger l m s) = span_dict s"
  "current_span (logger l m s) = current_span s"
  "log_records (logger l m s) = log_records s @ [(l, m)]"
  by (simp_all add: logger_def)

lemma trace_prerun_present:
  assumes "kw_task kw = Some t" "kw_task_id kw = Some i"
  shows "trace_prerun kw s =
     s\<lparr>spans := spans s @ [\<lparr>span_name = task_name t, kind = CONSUMER, parent = current_span s,
                             attributes = [], span_status = None, end_calls = 0\<rparr>],
       current_span := Some (length (spans s)),
       span_dict := AList.update (task_ident t, i, False)
          (length (spans s), \<lparr>act_span = length (spans s), end_on_exit = True, token = current_span s\<rparr>)
          (span_dict s),
       log_records := log_records s @ [(DEBUG, ''prerun signal start task_id='' @ i)]\<rparr>"
  using assms
  by (simp add: trace_prerun_def retrieve_defs start_span_def use_span_def activation_enter_def
      attach_span_def logger_def)

lemma trace_before_publish_present:
  assumes "kw_sender kw = Some t" "kw_message_id kw = Some i"
  shows "trace_before_publish kw s =
     s\<lparr>spans := spans s @ [\<lparr>span_name = task_name t, kind = PRODUCER, parent = current_span s,
                             attributes = fold (\<lambda>(k, v). AList.update k v) (kw_context kw)
                               [(TASK_TAG_KEY, TASK_APPLY_ASYNC), (MESSAGE_ID_ATTRIBUTE_NAME, i), (TASK_NAME_KEY, task_name t)],
                             span_status = None, end_calls = 0\<rparr>],
       current_span := Some (length (spans s)),
       span_dict := AList.update (task_ident t, i, True)
          (length (spans s), \<lparr>act_span = length (spans s), end_on_exit = True, token = current_span s\<rparr>)
          (span_dict s)\<rparr>"
  using assms
  apply (simp add: trace_before_publish_def retrieve_defs start_span_def use_span_def activation_enter_def
      attach_span_def set_attributes_from_context_on_span set_attribute_def on_span_def)
  apply (simp add: TASK_TAG_KEY_def MESSAGE_ID_ATTRIBUTE_NAME_def TASK_NAME_KEY_def)
  done

lemma trace_postrun_present:
  assumes "kw_task kw = Some t" "kw_task_id kw = Some i"
    and "retrieve_span t i False s = Some (r, a)"
  shows "trace_postrun kw s =
     detach_span t i False
       (activation_exit a
          (on_span r (\<lambda>sp. sp\<lparr>attributes :=
               AList.update TASK_NAME_KEY (task_name t)
                 (fold (\<lambda>(k, v). AList.update k v) (kw_context kw @ request t)
                    (AList.update TASK_TAG_KEY TASK_RUN (attributes sp)))\<rparr>)
             (logger DEBUG (''postrun signal task_id='' @ i) s)))"
  using assms
  by (simp add: trace_postrun_def retrieve_defs retrieve_span_def
      set_attributes_from_context_on_span set_attribute_def on_span_on_span comp_def)

lemma trace_postrun_missing:
  assumes "kw_task kw = Some t" "kw_task_id kw = Some i"
    and "retrieve_span t i False s = None"
  shows "trace_postrun kw s =
     logger WARNING (''no existing span found for task_id='' @ i)
       (logger DEBUG (''postrun signal task_id='' @ i) s)"
  using assms by (simp add: trace_postrun_def retrieve_defs retrieve_span_def)

lemma trace_after_publish_present:
  assumes "kw_sender kw = Some t" "kw_message_id kw = Some i"
    and "retrieve_span t i True s = Some (r, a)"
  shows "trace_after_publish kw s = detach_span t i True (activation_exit a s)"
  using assms by (simp add: trace_after_publish_def retrieve_defs)

lemma trace_after_publish_missing:
  assumes "kw_sender kw = Some t" "kw_message_id kw = Some i"
    and "retrieve_span t i True s = None"
  shows "trace_after_publish kw s = logger WARNING (''no existing span found for task_id='' @ i) s"
  using assms by (simp add: trace_after_publish_def retrieve_defs)

lemma trace_failure_present:
  assumes "kw_sender kw = Some t" "kw_task_id kw = Some i"
    and "retrieve_span t i False s = Some (r, a)" "kw_einfo kw = Some ex"
  shows "trace_failure kw s =
     (if (case throws t of None \<Rightarrow> False | Some classes \<Rightarrow> isinstance (exception ex) classes)
      then s
      else set_status r \<lparr>canonical_code = UNKNOWN, description = einfo_str ex\<rparr> s)"
  using assms by (simp add: trace_failure_def retrieve_defs)

lemma trace_retry_present:
  assumes "kw_sender kw = Some t" "kw_request_id kw = Some i" "kw_reason kw = Some rs"
    and "retrieve_span t i False s = Some (r, a)"
  shows "trace_retry kw s = set_attribute r TASK_RETRY_REASON_KEY (str_reason rs) s"
  using assms by (simp add: trace_retry_def retrieve_defs)

lemma only_logged_logger [simp]: "only_logged s (logger l m s)"
  by (simp add: only_logged_def)

lemma only_logged_logger2 [simp]: "only_logged s s' \<Longrightarrow> only_logged s (logger l m s')"
  by (simp add: only_logged_def)

lemma trace_prerun_absent:
  "kw_task kw = None \<or> kw_task_id kw = None \<Longrightarrow> only_logged s (trace_prerun kw s)"
  by (cases "kw_task kw"; cases "kw_task_id kw") (auto simp: trace_prerun_def retrieve_defs)

lemma trace_postrun_absent:
  "kw_task kw = None \<or> kw_task_id kw = None \<Longrightarrow> only_logged s (trace_postrun kw s)"
  by (cases "kw_task kw"; cases "kw_task_id kw") (auto simp: trace_postrun_def retrieve_defs)

lemma trace_before_publish_absent:
  "kw_sender kw = None \<or> kw_message_id kw = None \<Longrightarrow> only_logged s (trace_before_publish kw s)"
  by (cases "kw_sender kw"; cases "kw_message_id kw") (auto simp: trace_before_publish_def retrieve_defs)

lemma trace_after_publish_absent:
  "kw_sender kw = None \<or> kw_message_id kw = None \<Longrightarrow> only_logged s (trace_after_publish kw s)"
  by (cases "kw_sender kw"; cases "kw_message_id kw") (auto simp: trace_after_publish_def retrieve_defs)

lemma trace_failure_absent:
  "kw_sender kw = None \<or> kw_task_id kw = None \<Longrightarrow> only_logged s (trace_failure kw s)"
  by (cases "kw_sender kw"; cases "kw_task_id kw") (auto simp: trace_failure_def retrieve_defs)

lemma trace_retry_absent:
  "kw_sender kw = None \<or> kw_request_id kw = None \<or> kw_reason kw = None \<Longrightarrow>
   only_logged s (trace_retry kw s)"
  by (cases "kw_sender kw"; cases "kw_request_id kw"; cases "kw_reason kw")
     (auto simp: trace_retry_def retrieve_defs)

lemma end_counts_logger [simp]: "end_counts (logger l m s) = end_counts s"
  by (simp add: end_counts_def)

lemma end_counts_on_span_keep:
  assumes "\<And>sp. end_calls (f sp) = end_calls sp"
  shows "end_counts (on_span r f s) = end_counts s"
  unfolding end_counts_def by (rule end_counts_on_span) (rule assms)

lemma length_end_counts [simp]: "length (end_counts s) = length (spans s)"
  by (simp add: end_counts_def)

lemma end_counts_activation_exit:
  "end_counts (activation_exit a s) =
     (if end_on_exit a then (end_counts s)[act_span a := Suc (end_counts s ! act_span a)]
      else end_counts s)"
  by (auto simp: activation_exit_def span_end_def on_span_def end_counts_def map_update Let_def
      list_update_beyond)

lemma activation_exit_proj [simp]:
  "span_dict (activation_exit a s) = span_dict s"
  "length (spans (activation_exit a s)) = length (spans s)"
  "log_records (activation_exit a s) = log_records s"
  by (simp_all add: activation_exit_def span_end_def Let_def)

lemma detach_span_proj [simp]:
  "spans (detach_span t i p s) = spans s"
  "span_dict (detach_span t i p s) = AList.delete (task_ident t, i, p) (span_dict s)"
  "current_span (detach_span t i p s) = current_span s"
  "log_records (detach_span t i p s) = log_records s"
  by (simp_all add: detach_span_def)

lemma end_counts_detach_span [simp]: "end_counts (detach_span t i p s) = end_counts s"
  by (simp add: end_counts_def)

text \<open>The effect of one receiver call on the table and on the end counts.\<close>

lemma keeps_refl [simp]: "keeps s s"
  by (simp add: keeps_def)

lemma keeps_logger [simp]: "keeps s (logger l m s)"
  by (simp add: keeps_def)

lemma only_logged_keeps: "only_logged s s' \<Longrightarrow> keeps s s'"
  by (simp add: only_logged_def keeps_def end_counts_def)

lemma keeps_on_span:
  "(\<And>sp. end_calls (f sp) = end_calls sp) \<Longrightarrow> keeps s (on_span r f s)"
  by (simp add: keeps_def end_counts_on_span_keep)

lemma trace_prerun_effect:
  "keeps s (trace_prerun kw s) \<or> (\<exists>k. run_key kw = Some k \<and> opens k s (trace_prerun kw s))"
proof (cases "kw_task kw = None \<or> kw_task_id kw = None")
  case True
  then show ?thesis by (simp add: only_logged_keeps trace_prerun_absent)
next
  case False
  then obtain t i where "kw_task kw = Some t" "kw_task_id kw = Some i" by auto
  then have "opens (task_ident t, i, False) s (trace_prerun kw s)"
    unfolding opens_def
    by (intro conjI exI [of _ "\<lparr>act_span = length (spans s), end_on_exit = True,
          token = current_span s\<rparr>"]) (simp_all add: trace_prerun_present end_counts_def)
  with \<open>kw_task kw = Some t\<close> \<open>kw_task_id kw = Some i\<close> show ?thesis
    by (simp add: run_key_def)
qed

lemma trace_before_publish_effect:
  "keeps s (trace_before_publish kw s) \<or>
   (\<exists>k. publish_key kw = Some k \<and> opens k s (trace_before_publish kw s))"
proof (cases "kw_sender kw = None \<or> kw_message_id kw = None")
  case True
  then show ?thesis by (simp add: only_logged_keeps trace_before_publish_absent)
next
  case False
  then obtain t i where "kw_sender kw = Some t" "kw_message_id kw = Some i" by auto
  then have "opens (task_ident t, i, True) s (trace_before_publish kw s)"
    unfolding opens_def
    by (intro conjI exI [of _ "\<lparr>act_span = length (spans s), end_on_exit = True,
          token = current_span s\<rparr>"]) (simp_all add: trace_before_publish_present end_counts_def)
  with \<open>kw_sender kw = Some t\<close> \<open>kw_message_id kw = Some i\<close> show ?thesis
    by (simp add: publish_key_def)
qed

lemma trace_postrun_effect:
  "keeps s (trace_postrun kw s) \<or> (\<exists>k. run_key kw = Some k \<and> closes k s (trace_postrun kw s))"
proof (cases "kw_task kw = None \<or> kw_task_id kw = None")
  case True
  then show ?thesis by (simp add: only_logged_keeps trace_postrun_absent)
next
  case False
  then obtain t i where ti: "kw_task kw = Some t" "kw_task_id kw = Some i" by auto
  show ?thesis
  proof (cases "retrieve_span t i False s")
    case None
    with ti show ?thesis by (simp add: trace_postrun_missing keeps_def)
  next
    case (Some ra)
    obtain r a where ra: "ra = (r, a)" by (cases ra)
    have "closes (task_ident t, i, False) s (trace_postrun kw s)"
      using Some ti unfolding ra
      by (simp add: trace_postrun_present closes_def retrieve_span_def
          end_counts_activation_exit end_counts_on_span_keep)
    with ti show ?thesis by (simp add: run_key_def)
  qed
qed

lemma trace_after_publish_effect:
  "keeps s (trace_after_publish kw s) \<or>
   (\<exists>k. publish_key kw = Some k \<and> closes k s (trace_after_publish kw s))"
proof (cases "kw_sender kw = None \<or> kw_message_id kw = None")
  case True
  then show ?thesis by (simp add: only_logged_keeps trace_after_publish_absent)
next
  case False
  then obtain t i where ti: "kw_sender kw = Some t" "kw_message_id kw = Some i" by auto
  show ?thesis
  proof (cases "retrieve_span t i True s")
    case None
    with ti show ?thesis by (simp add: trace_after_publish_missing)
  next
    case (Some ra)
    obtain r a where ra: "ra = (r, a)" by (cases ra)
    have "closes (task_ident t, i, True) s (trace_after_publish kw s)"
      using Some ti unfolding ra
      by (simp add: trace_after_publish_present closes_def retrieve_span_def)
    with ti show ?thesis by (simp add: publish_key_def)
  qed
qed

lemma trace_failure_effect: "keeps s (trace_failure kw s)"
proof (cases "kw_sender kw = None \<or> kw_task_id kw = None")
  case True
  then show ?thesis by (simp add: only_logged_keeps trace_failure_absent)
next
  case False
  then obtain t i where "kw_sender kw = Some t" "kw_task_id kw = Some i" by auto
  then show ?thesis
    by (auto simp: trace_failure_def retrieve_defs set_status_def keeps_on_span
        split: option.splits)
qed

lemma trace_retry_effect: "keeps s (trace_retry kw s)"
proof (cases "kw_sender kw = None \<or> kw_request_id kw = None \<or> kw_reason kw = None")
  case True
  then show ?thesis by (simp add: only_logged_keeps trace_retry_absent)
next
  case False
  then obtain t i rs where "kw_sender kw = Some t" "kw_request_id kw = Some i"
    "kw_reason kw = Some rs" by auto
  then show ?thesis
    by (auto simp: trace_retry_def retrieve_defs set_attribute_def keeps_on_span
        split: option.splits)
qed

lemma receive_effect:
  "keeps s (receive rc kw s) \<or>
   (\<exists>k. call_key (rc, kw) = Some k \<and>
      (opens k s (receive rc kw s) \<or> closes k s (receive rc kw s)))"
proof (cases rc)
  case Trace_prerun
  then show ?thesis using trace_prerun_effect [of s kw] by auto
next
  case Trace_postrun
  then show ?thesis using trace_postrun_effect [of s kw] by auto
next
  case Trace_before_publish
  then show ?thesis using trace_before_publish_effect [of s kw] by auto
next
  case Trace_after_publish
  then show ?thesis using trace_after_publish_effect [of s kw] by auto
next
  case Trace_failure
  then show ?thesis by (simp add: trace_failure_effect)
next
  case Trace_retry
  then show ?thesis by (simp add: trace_retry_effect)
next
  case (Foreign n)
  then show ?thesis by simp
qed

subsection \<open>Well-formed states are preserved\<close>

lemma wf_entry:
  assumes "wf s" "(k, r, a) \<in> set (span_dict s)"
  shows "r < length (spans s) \<and> act_span a = r \<and> end_on_exit a"
  using assms by (auto simp: wf_def list_all_iff)

lemma wf_lookup:
  assumes "wf s" "map_of (span_dict s) k = Some (r, a)"
  shows "r < length (spans s) \<and> act_span a = r \<and> end_on_exit a"
  using assms(1) map_of_SomeD [OF assms(2)] by (rule wf_entry)

lemma wf_same_ref:
  assumes "wf s" "(k, r, a) \<in> set (span_dict s)" "(k', r, a') \<in> set (span_dict s)"
  shows "k = k'"
proof -
  have "inj_on (fst \<circ> snd) (set (span_dict s))"
    using assms(1) by (simp add: wf_def distinct_map)
  from inj_onD [OF this _ assms(2,3)] show ?thesis by simp
qed

lemma set_update_subset: "set (AList.update k v d) \<subseteq> insert (k, v) (set d)"
  by (induction d) auto

lemma distinct_refs_update:
  assumes "distinct (map f d)" "f (k, v) \<notin> f ` set d"
  shows "distinct (map f (AList.update k v d))"
  using assms
proof (induction d)
  case Nil
  then show ?case by simp
next
  case (Cons p d)
  have "f p \<notin> f ` set (AList.update k v d)"
    using Cons.prems set_update_subset [of k v d] by auto
  with Cons show ?case by (cases p) auto
qed

lemma set_delete: "set (AList.delete k d) = {p \<in> set d. fst p \<noteq> k}"
  by (auto simp: AList.delete_eq)

lemma same_length:
  assumes "end_counts s' = end_counts s"
  shows "length (spans s') = length (spans s)"
proof -
  have "length (end_counts s') = length (end_counts s)" by (simp only: assms)
  then show ?thesis by simp
qed

lemma wf_keeps:
  assumes "wf s" "keeps s s'"
  shows "wf s'"
proof -
  have "length (spans s') = length (spans s)"
    by (rule same_length) (use assms(2) in \<open>simp add: keeps_def\<close>)
  moreover have "span_dict s' = span_dict s"
    using assms(2) by (simp add: keeps_def)
  ultimately show ?thesis using assms(1) by (simp add: wf_def)
qed

lemma wf_opens:
  assumes "wf s" "opens k s s'"
  shows "wf s'"
proof -
  from assms(2) obtain a where a: "act_span a = length (spans s)" "end_on_exit a"
    and d: "span_dict s' = AList.update k (length (spans s), a) (span_dict s)"
    and e: "end_counts s' = end_counts s @ [0]"
    unfolding opens_def by blast
  have "length (end_counts s') = length (end_counts s @ [0])" by (simp only: e)
  then have len: "length (spans s') = Suc (length (spans s))" by simp
  have fresh: "length (spans s) \<notin> (fst \<circ> snd) ` set (span_dict s)"
  proof
    assume "length (spans s) \<in> (fst \<circ> snd) ` set (span_dict s)"
    then obtain k' a' where "(k', length (spans s), a') \<in> set (span_dict s)" by auto
    from wf_entry [OF assms(1) this] show False by simp
  qed
  have 1: "distinct (map fst (span_dict s'))"
    using assms(1) by (simp add: d wf_def distinct_update)
  have 2: "distinct (map (fst \<circ> snd) (span_dict s'))"
    unfolding d
  proof (rule distinct_refs_update)
    show "distinct (map (fst \<circ> snd) (span_dict s))" using assms(1) by (simp add: wf_def)
    show "(fst \<circ> snd) (k, length (spans s), a) \<notin> (fst \<circ> snd) ` set (span_dict s)"
      using fresh by simp
  qed
  have 3: "list_all (\<lambda>(k, r, a). r < length (spans s') \<and> act_span a = r \<and> end_on_exit a)
             (span_dict s')"
    unfolding list_all_iff
  proof (intro ballI)
    fix p assume "p \<in> set (span_dict s')"
    then have "p = (k, length (spans s), a) \<or> p \<in> set (span_dict s)"
      using set_update_subset [of k "(length (spans s), a)" "span_dict s"] unfolding d by blast
    then show "case p of (k, r, a) \<Rightarrow> r < length (spans s') \<and> act_span a = r \<and> end_on_exit a"
    proof
      assume "p = (k, length (spans s), a)"
      then show ?thesis by (simp add: a len)
    next
      assume p: "p \<in> set (span_dict s)"
      obtain k' r' a' where p': "p = (k', r', a')" by (cases p) auto
      from wf_entry [OF assms(1) p [unfolded p']] show ?thesis by (simp add: p' len)
    qed
  qed
  from 1 2 3 show ?thesis by (simp add: wf_def)
qed

lemma wf_closes:
  assumes "wf s" "closes k s s'"
  shows "wf s'"
proof -
  from assms(2) obtain a where d: "span_dict s' = AList.delete k (span_dict s)"
    and e: "end_counts s' = end_counts (activation_exit a s)"
    unfolding closes_def by blast
  have "length (end_counts s') = length (end_counts (activation_exit a s))" by (simp only: e)
  then have len: "length (spans s') = length (spans s)" by simp
  have 1: "distinct (map fst (span_dict s'))"
    using assms(1) by (simp add: d wf_def distinct_delete)
  have 2: "distinct (map (fst \<circ> snd) (span_dict s'))"
    using assms(1) by (simp add: d wf_def AList.delete_eq distinct_map_filter)
  have 3: "list_all (\<lambda>(k, r, a). r < length (spans s') \<and> act_span a = r \<and> end_on_exit a)
             (span_dict s')"
    unfolding list_all_iff
  proof (intro ballI)
    fix p assume "p \<in> set (span_dict s')"
    then have p: "p \<in> set (span_dict s)" by (simp add: d set_delete)
    obtain k' r' a' where p': "p = (k', r', a')" by (cases p) auto
    from wf_entry [OF assms(1) p [unfolded p']]
    show "case p of (k, r, a) \<Rightarrow> r < length (spans s') \<and> act_span a = r \<and> end_on_exit a"
      by (simp add: p' len)
  qed
  from 1 2 3 show ?thesis by (simp add: wf_def)
qed

lemma wf_receive: "wf s \<Longrightarrow> wf (receive rc kw s)"
  using receive_effect [of s rc kw] by (blast intro: wf_keeps wf_opens wf_closes)

lemma wf_run: "wf s \<Longrightarrow> wf (run es s)"
  by (induction es arbitrary: s) (auto simp: wf_receive)

lemma wf_initial: "wf initial"
  by (simp add: wf_def initial_def)

subsection \<open>Open and closed spans\<close>

lemma run_keyD:
  assumes "run_key kw = Some k"
  obtains t i where "kw_task kw = Some t" "kw_task_id kw = Some i" "k = (task_ident t, i, False)"
  using assms by (auto simp: run_key_def split: option.splits)

lemma publish_keyD:
  assumes "publish_key kw = Some k"
  obtains t i where "kw_sender kw = Some t" "kw_message_id kw = Some i"
    "k = (task_ident t, i, True)"
  using assms by (auto simp: publish_key_def split: option.splits)

lemma trace_prerun_opens:
  assumes "run_key kw = Some k"
  shows "opens k s (trace_prerun kw s)"
proof -
  from assms obtain t i where ti: "kw_task kw = Some t" "kw_task_id kw = Some i"
    and k: "k = (task_ident t, i, False)" by (rule run_keyD)
  show ?thesis
    unfolding opens_def k
    by (intro conjI exI [of _ "\<lparr>act_span = length (spans s), end_on_exit = True,
          token = current_span s\<rparr>"]) (simp_all add: trace_prerun_present [OF ti] end_counts_def)
qed

lemma trace_before_publish_opens:
  assumes "publish_key kw = Some k"
  shows "opens k s (trace_before_publish kw s)"
proof -
  from assms obtain t i where ti: "kw_sender kw = Some t" "kw_message_id kw = Some i"
    and k: "k = (task_ident t, i, True)" by (rule publish_keyD)
  show ?thesis
    unfolding opens_def k
    by (intro conjI exI [of _ "\<lparr>act_span = length (spans s), end_on_exit = True,
          token = current_span s\<rparr>"])
       (simp_all add: trace_before_publish_present [OF ti] end_counts_def)
qed

lemma trace_postrun_closes:
  assumes "run_key kw = Some k" "map_of (span_dict s) k = Some (r, a)"
  shows "closes k s (trace_postrun kw s)"
proof -
  from assms(1) obtain t i where ti: "kw_task kw = Some t" "kw_task_id kw = Some i"
    and k: "k = (task_ident t, i, False)" by (rule run_keyD)
  have "retrieve_span t i False s = Some (r, a)"
    using assms(2) by (simp add: retrieve_span_def k)
  from trace_postrun_present [OF ti this] assms(2) show ?thesis
    by (simp add: closes_def k end_counts_activation_exit end_counts_on_span_keep)
qed

lemma trace_after_publish_closes:
  assumes "publish_key kw = Some k" "map_of (span_dict s) k = Some (r, a)"
  shows "closes k s (trace_after_publish kw s)"
proof -
  from assms(1) obtain t i where ti: "kw_sender kw = Some t" "kw_message_id kw = Some i"
    and k: "k = (task_ident t, i, True)" by (rule publish_keyD)
  have "retrieve_span t i True s = Some (r, a)"
    using assms(2) by (simp add: retrieve_span_def k)
  from trace_after_publish_present [OF ti this] assms(2) show ?thesis
    by (simp add: closes_def k)
qed

lemma open_at_opens:
  assumes "wf s" "opens k s s'"
  shows "open_at k (length (spans s)) s'"
proof -
  from assms(2) obtain a where
    d: "span_dict s' = AList.update k (length (spans s), a) (span_dict s)"
    and e: "end_counts s' = end_counts s @ [0]"
    unfolding opens_def by blast
  have "map_option fst (map_of (span_dict s') k) = Some (length (spans s))"
    by (simp add: d update_conv')
  moreover have "end_counts s' ! length (spans s) = 0"
    by (simp add: e nth_append)
  ultimately show ?thesis using wf_opens [OF assms] by (simp add: open_at_def)
qed

lemma open_at_keeps:
  assumes "open_at k r s" "keeps s s'"
  shows "open_at k r s'"
  using assms wf_keeps [of s s'] by (simp add: open_at_def keeps_def)

lemma open_at_entry:
  assumes "open_at k r s"
  obtains a where "map_of (span_dict s) k = Some (r, a)" "(k, r, a) \<in> set (span_dict s)"
    "r < length (spans s)" "act_span a = r" "end_on_exit a"
proof -
  from assms obtain a where m: "map_of (span_dict s) k = Some (r, a)"
    by (auto simp: open_at_def)
  from assms have "wf s" by (simp add: open_at_def)
  from wf_lookup [OF this m] map_of_SomeD [OF m] m that show ?thesis by blast
qed

lemma open_at_other_opens:
  assumes "open_at k r s" "opens k' s s'" "k' \<noteq> k"
  shows "open_at k r s'"
proof -
  from assms(1) have wf: "wf s" by (simp add: open_at_def)
  from assms(1) obtain a where r: "r < length (spans s)" by (rule open_at_entry)
  from assms(2) obtain a' where
    d: "span_dict s' = AList.update k' (length (spans s), a') (span_dict s)"
    and e: "end_counts s' = end_counts s @ [0]"
    unfolding opens_def by blast
  have "map_of (span_dict s') k = map_of (span_dict s) k"
    using assms(3) by (simp add: d update_conv')
  moreover have "end_counts s' ! r = end_counts s ! r"
    using r by (simp add: e nth_append)
  ultimately show ?thesis
    using assms(1) wf_opens [OF wf assms(2)] by (simp add: open_at_def)
qed

lemma open_at_other_closes:
  assumes "open_at k r s" "closes k' s s'" "k' \<noteq> k"
  shows "open_at k r s'"
proof -
  from assms(1) have wf: "wf s" by (simp add: open_at_def)
  from assms(1) obtain a where in_k: "(k, r, a) \<in> set (span_dict s)"
    by (rule open_at_entry)
  from assms(2) obtain r' a' where m': "map_of (span_dict s) k' = Some (r', a')"
    and e: "end_counts s' = end_counts (activation_exit a' s)"
    and d: "span_dict s' = AList.delete k' (span_dict s)"
    unfolding closes_def by blast
  from wf_lookup [OF wf m'] have a': "act_span a' = r'" by simp
  have "r' \<noteq> r"
  proof
    assume "r' = r"
    with map_of_SomeD [OF m'] have "(k', r, a') \<in> set (span_dict s)" by simp
    from wf_same_ref [OF wf this in_k] assms(3) show False by simp
  qed
  then have "end_counts s' ! r = end_counts s ! r"
    by (simp add: e end_counts_activation_exit a')
  moreover have "map_of (span_dict s') k = map_of (span_dict s) k"
    using assms(3) by (simp add: d)
  ultimately show ?thesis
    using assms(1) wf_closes [OF wf assms(2)] by (simp add: open_at_def)
qed

lemma open_at_receive:
  assumes "open_at k r s" "call_key (rc, kw) \<noteq> Some k"
  shows "open_at k r (receive rc kw s)"
  using receive_effect [of s rc kw] assms
  by (blast intro: open_at_keeps open_at_other_opens open_at_other_closes)

lemma open_at_run:
  assumes "open_at k r s" "list_all (\<lambda>e. call_key e \<noteq> Some k) es"
  shows "open_at k r (run es s)"
  using assms
proof (induction es arbitrary: s)
  case Nil
  then show ?case by simp
next
  case (Cons e es)
  obtain rc kw where e: "e = (rc, kw)" by (cases e)
  from Cons.prems have "open_at k r (receive rc kw s)"
    by (simp add: e open_at_receive)
  with Cons show ?case by (simp add: e)
qed

lemma closed_at_closes:
  assumes "open_at k r s" "closes k s s'"
  shows "closed_at r (Suc 0) s'"
proof -
  from assms(1) have wf: "wf s" and z: "end_counts s ! r = 0" by (simp_all add: open_at_def)
  from assms(1) obtain a where m: "map_of (span_dict s) k = Some (r, a)"
    and in_k: "(k, r, a) \<in> set (span_dict s)"
    and r: "r < length (spans s)" and a: "act_span a = r" "end_on_exit a"
    by (rule open_at_entry)
  from assms(2) m have e: "end_counts s' = end_counts (activation_exit a s)"
    and d: "span_dict s' = AList.delete k (span_dict s)"
    by (auto simp: closes_def)
  have "length (end_counts s') = length (end_counts (activation_exit a s))" by (simp only: e)
  then have len: "length (spans s') = length (spans s)" by simp
  have "end_counts s' ! r = Suc 0"
    using r by (simp add: e end_counts_activation_exit a z)
  moreover have "r \<notin> refs s'"
  proof
    assume "r \<in> refs s'"
    then obtain k' a' where in': "(k', r, a') \<in> set (span_dict s)" and "k' \<noteq> k"
      by (auto simp: refs_def d set_delete)
    with wf_same_ref [OF wf in' in_k] show False by simp
  qed
  ultimately show ?thesis
    using wf_closes [OF wf assms(2)] r by (simp add: closed_at_def len)
qed

lemma closed_at_keeps:
  assumes "closed_at r n s" "keeps s s'"
  shows "closed_at r n s'"
proof -
  have "length (spans s') = length (spans s)"
    by (rule same_length) (use assms(2) in \<open>simp add: keeps_def\<close>)
  then show ?thesis
    using assms wf_keeps [of s s'] by (simp add: closed_at_def keeps_def refs_def)
qed

lemma closed_at_opens:
  assumes "closed_at r n s" "opens k s s'"
  shows "closed_at r n s'"
proof -
  from assms(1) have wf: "wf s" and r: "r < length (spans s)" and nr: "r \<notin> refs s"
    and c: "end_counts s ! r = n" by (simp_all add: closed_at_def)
  from assms(2) obtain a where
    d: "span_dict s' = AList.update k (length (spans s), a) (span_dict s)"
    and e: "end_counts s' = end_counts s @ [0]"
    unfolding opens_def by blast
  have "length (end_counts s') = length (end_counts s @ [0])" by (simp only: e)
  then have len: "length (spans s') = Suc (length (spans s))" by simp
  have "refs s' \<subseteq> insert (length (spans s)) (refs s)"
    using set_update_subset [of k "(length (spans s), a)" "span_dict s"]
    by (auto simp: refs_def d)
  with nr r have "r \<notin> refs s'" by auto
  moreover have "end_counts s' ! r = n" using r c by (simp add: e nth_append)
  ultimately show ?thesis
    using wf_opens [OF wf assms(2)] r by (simp add: closed_at_def len)
qed

lemma closed_at_other_closes:
  assumes "closed_at r n s" "closes k s s'"
  shows "closed_at r n s'"
proof -
  from assms(1) have wf: "wf s" and r: "r < length (spans s)" and nr: "r \<notin> refs s"
    and c: "end_counts s ! r = n" by (simp_all add: closed_at_def)
  from assms(2) obtain r' a' where m': "map_of (span_dict s) k = Some (r', a')"
    and e: "end_counts s' = end_counts (activation_exit a' s)"
    and d: "span_dict s' = AList.delete k (span_dict s)"
    unfolding closes_def by blast
  have "length (end_counts s') = length (end_counts (activation_exit a' s))" by (simp only: e)
  then have len: "length (spans s') = length (spans s)" by simp
  from wf_lookup [OF wf m'] have a': "act_span a' = r'" by simp
  have "r' \<in> refs s" using map_of_SomeD [OF m'] by (force simp: refs_def)
  with nr have "r' \<noteq> r" by auto
  then have "end_counts s' ! r = n"
    by (simp add: e end_counts_activation_exit a' c)
  moreover have "r \<notin> refs s'" using nr by (auto simp: refs_def d set_delete)
  ultimately show ?thesis
    using wf_closes [OF wf assms(2)] r by (simp add: closed_at_def len)
qed

lemma closed_at_receive:
  assumes "closed_at r n s"
  shows "closed_at r n (receive rc kw s)"
  using receive_effect [of s rc kw] assms
  by (blast intro: closed_at_keeps closed_at_opens closed_at_other_closes)

lemma closed_at_run: "closed_at r n s \<Longrightarrow> closed_at r n (run es s)"
proof (induction es arbitrary: s)
  case Nil
  then show ?case by simp
next
  case (Cons e es)
  obtain rc kw where e: "e = (rc, kw)" by (cases e)
  from Cons show ?case by (simp add: e closed_at_receive)
qed

lemma started_on_span:
  assumes "\<And>sp. span_name (f sp) = span_name sp" "\<And>sp. kind (f sp) = kind sp"
  shows "started (on_span r f s) = started s"
  unfolding started_def by (rule nth_equalityI) (simp_all add: on_span_nth assms)

lemma started_logger [simp]: "started (logger l m s) = started s"
  by (simp add: started_def)

lemma started_only_logged: "only_logged s s' \<Longrightarrow> started s' = started s"
  by (simp add: only_logged_def started_def)

lemma started_activation_exit [simp]: "started (activation_exit a s) = started s"
proof -
  have "started (s\<lparr>current_span := token a\<rparr>) = started s" by (simp add: started_def)
  then show ?thesis
    by (simp add: activation_exit_def span_end_def started_on_span Let_def)
qed

lemma started_detach_span [simp]: "started (detach_span t i p s) = started s"
  by (simp add: started_def)

lemma started_trace_postrun: "started (trace_postrun kw s) = started s"
proof (cases "kw_task kw = None \<or> kw_task_id kw = None")
  case True
  then show ?thesis by (simp add: started_only_logged trace_postrun_absent)
next
  case False
  then obtain t i where ti: "kw_task kw = Some t" "kw_task_id kw = Some i" by auto
  show ?thesis
  proof (cases "retrieve_span t i False s")
    case None
    from trace_postrun_missing [OF ti this] show ?thesis by simp
  next
    case (Some ra)
    obtain r a where "ra = (r, a)" by (cases ra)
    with Some have "retrieve_span t i False s = Some (r, a)" by simp
    from trace_postrun_present [OF ti this] show ?thesis by (simp add: started_on_span)
  qed
qed

lemma started_trace_after_publish: "started (trace_after_publish kw s) = started s"
proof (cases "kw_sender kw = None \<or> kw_message_id kw = None")
  case True
  then show ?thesis by (simp add: started_only_logged trace_after_publish_absent)
next
  case False
  then obtain t i where ti: "kw_sender kw = Some t" "kw_message_id kw = Some i" by auto
  show ?thesis
  proof (cases "retrieve_span t i True s")
    case None
    from trace_after_publish_missing [OF ti this] show ?thesis by simp
  next
    case (Some ra)
    obtain r a where "ra = (r, a)" by (cases ra)
    with Some have "retrieve_span t i True s = Some (r, a)" by simp
    from trace_after_publish_present [OF ti this] show ?thesis by simp
  qed
qed

lemma started_trace_failure: "started (trace_failure kw s) = started s"
proof (cases "kw_sender kw = None \<or> kw_task_id kw = None")
  case True
  then show ?thesis by (simp add: started_only_logged trace_failure_absent)
next
  case False
  then obtain t i where "kw_sender kw = Some t" "kw_task_id kw = Some i" by auto
  then show ?thesis
    by (auto simp: trace_failure_def retrieve_defs set_status_def started_on_span
        split: option.splits)
qed

lemma started_trace_retry: "started (trace_retry kw s) = started s"
proof (cases "kw_sender kw = None \<or> kw_request_id kw = None \<or> kw_reason kw = None")
  case True
  then show ?thesis by (simp add: started_only_logged trace_retry_absent)
next
  case False
  then obtain t i rs where "kw_sender kw = Some t" "kw_request_id kw = Some i"
    "kw_reason kw = Some rs" by auto
  then show ?thesis
    by (auto simp: trace_retry_def retrieve_defs set_attribute_def started_on_span
        split: option.splits)
qed

section \<open>The claims\<close>

text \<open>
  Claim C10. A span started by \<open>trace_prerun\<close> has the task's name and kind CONSUMER, a span
  started by \<open>trace_before_publish\<close> has the task's name and kind PRODUCER, and a call of
  any other receiver leaves the list of started spans, with their names and kinds, as it
  was: it starts no span.
\<close>

theorem span_kind_and_name:
  "(kw_task kw = Some t \<and> kw_task_id kw = Some i \<longrightarrow>
      started (trace_prerun kw s) = started s @ [(task_name t, CONSUMER)]) \<and>
   (kw_sender kw = Some t \<and> kw_message_id kw = Some i \<longrightarrow>
      started (trace_before_publish kw s) = started s @ [(task_name t, PRODUCER)]) \<and>
   (rc \<noteq> Trace_prerun \<and> rc \<noteq> Trace_before_publish \<longrightarrow>
      started (receive rc kw s) = started s)"
proof (intro conjI impI)
  assume "kw_task kw = Some t \<and> kw_task_id kw = Some i"
  then show "started (trace_prerun kw s) = started s @ [(task_name t, CONSUMER)]"
    by (simp add: trace_prerun_present started_def)
next
  assume "kw_sender kw = Some t \<and> kw_message_id kw = Some i"
  then show "started (trace_before_publish kw s) = started s @ [(task_name t, PRODUCER)]"
    by (simp add: trace_before_publish_present started_def)
next
  assume "rc \<noteq> Trace_prerun \<and> rc \<noteq> Trace_before_publish"
  then show "started (receive rc kw s) = started s"
    by (cases rc)
       (simp_all add: started_trace_postrun started_trace_after_publish started_trace_failure
          started_trace_retry)
qed

theorem span_kind_and_name_witness:
  "kw_task run_kwargs = Some example_task \<and> kw_task_id run_kwargs = Some ''a1'' \<and>
   started (trace_prerun run_kwargs initial) = [(''tasks.add'', CONSUMER)] \<and>
   kw_sender publish_kwargs = Some example_task \<and> kw_message_id publish_kwargs = Some ''a1'' \<and>
   started (trace_before_publish publish_kwargs (trace_prerun run_kwargs initial)) =
     [(''tasks.add'', CONSUMER), (''tasks.add'', PRODUCER)] \<and>
   started (receive Trace_postrun run_kwargs (trace_prerun run_kwargs initial)) =
     [(''tasks.add'', CONSUMER)]"
  using span_kind_and_name [of run_kwargs example_task "''a1''" initial Trace_postrun]
    span_kind_and_name [of publish_kwargs example_task "''a1''" "trace_prerun run_kwargs initial"
      Trace_postrun]
    span_kind_and_name [of run_kwargs example_task "''a1''" "trace_prerun run_kwargs initial"
      Trace_postrun]
  by (simp add: example_defs initial_def started_def)

text \<open>
  Claim C8. When the payload of a task-failure signal carries the task and the task id but
  no \<^verbatim>\<open>einfo\<close>, \<open>trace_failure\<close> returns the state it was given: no status, no
  attribute, nothing else is set, whether or not a span is attached.
\<close>

theorem failure_without_einfo_is_noop:
  assumes "kw_sender kw = Some t" "kw_task_id kw = Some i" "kw_einfo kw = None"
  shows "trace_failure kw s = s"
  using assms by (simp add: trace_failure_def retrieve_defs split: option.splits)

theorem failure_without_einfo_is_noop_witness:
  "kw_sender (failure_kwargs key_error\<lparr>kw_einfo := None\<rparr>) = Some example_task \<and>
   kw_task_id (failure_kwargs key_error\<lparr>kw_einfo := None\<rparr>) = Some ''a1'' \<and>
   kw_einfo (failure_kwargs key_error\<lparr>kw_einfo := None\<rparr>) = None \<and>
   retrieve_span example_task ''a1'' False (trace_prerun run_kwargs initial) =
     Some (0, \<lparr>act_span = 0, end_on_exit = True, token = None\<rparr>) \<and>
   trace_failure (failure_kwargs key_error\<lparr>kw_einfo := None\<rparr>) (trace_prerun run_kwargs initial) =
     trace_prerun run_kwargs initial"
proof -
  have 1: "kw_sender (failure_kwargs key_error\<lparr>kw_einfo := None\<rparr>) = Some example_task"
    and 2: "kw_task_id (failure_kwargs key_error\<lparr>kw_einfo := None\<rparr>) = Some ''a1''"
    and 3: "kw_einfo (failure_kwargs key_error\<lparr>kw_einfo := None\<rparr>) = None"
    by (simp_all add: example_defs)
  have 4: "retrieve_span example_task ''a1'' False (trace_prerun run_kwargs initial) =
     Some (0, \<lparr>act_span = 0, end_on_exit = True, token = None\<rparr>)"
    by (simp add: trace_prerun_present [of _ example_task "''a1''"] retrieve_span_def
        example_defs initial_def)
  from 1 2 3 4 failure_without_einfo_is_noop [OF 1 2 3, of "trace_prerun run_kwargs initial"]
  show ?thesis by simp
qed

text \<open>
  Claim C4. For each of the six receivers: when one of the identifiers it retrieves from
  the payload is absent, the call only logs; it starts, changes and closes no span and
  leaves the table and the current span alone. A receiver is a total function of the
  payload and the state, so it returns and raises nothing.
\<close>

theorem absent_identifiers_log_and_return:
  "(kw_task kw = None \<or> kw_task_id kw = None \<longrightarrow>
      only_logged s (trace_prerun kw s) \<and> only_logged s (trace_postrun kw s)) \<and>
   (kw_sender kw = None \<or> kw_message_id kw = None \<longrightarrow>
      only_logged s (trace_before_publish kw s) \<and> only_logged s (trace_after_publish kw s)) \<and>
   (kw_sender kw = None \<or> kw_task_id kw = None \<longrightarrow> only_logged s (trace_failure kw s)) \<and>
   (kw_sender kw = None \<or> kw_request_id kw = None \<or> kw_reason kw = None \<longrightarrow>
      only_logged s (trace_retry kw s))"
  by (intro conjI impI trace_prerun_absent trace_postrun_absent trace_before_publish_absent
      trace_after_publish_absent trace_failure_absent trace_retry_absent)

theorem absent_identifiers_log_and_return_witness:
  "kw_task_id (run_kwargs\<lparr>kw_task_id := None\<rparr>) = None \<and>
   only_logged initial (trace_prerun (run_kwargs\<lparr>kw_task_id := None\<rparr>) initial) \<and>
   only_logged initial (trace_postrun (run_kwargs\<lparr>kw_task_id := None\<rparr>) initial) \<and>
   kw_sender (run_kwargs\<lparr>kw_task_id := None\<rparr>) = None \<and>
   only_logged initial (trace_before_publish (run_kwargs\<lparr>kw_task_id := None\<rparr>) initial) \<and>
   only_logged initial (trace_after_publish (run_kwargs\<lparr>kw_task_id := None\<rparr>) initial) \<and>
   only_logged initial (trace_failure (run_kwargs\<lparr>kw_task_id := None\<rparr>) initial) \<and>
   only_logged initial (trace_retry (run_kwargs\<lparr>kw_task_id := None\<rparr>) initial) \<and>
   log_records (trace_prerun (run_kwargs\<lparr>kw_task_id := None\<rparr>) initial) =
     [(DEBUG, ''Unable to retrieve task_id'')]"
  using absent_identifiers_log_and_return [of "run_kwargs\<lparr>kw_task_id := None\<rparr>" initial]
  by (simp add: example_defs trace_prerun_def retrieve_defs initial_def)

lemma take_end_counts_keeps: "keeps s s' \<Longrightarrow> take (length (spans s)) (end_counts s') = end_counts s"
  by (simp add: keeps_def)

lemma take_end_counts_opens: "opens k s s' \<Longrightarrow> take (length (spans s)) (end_counts s') = end_counts s"
  by (simp add: opens_def)

lemma end_counts_nth: "r < length (spans s) \<Longrightarrow> end_counts s ! r = end_calls (spans s ! r)"
  by (simp add: end_counts_def)

lemma run_direction:
  assumes "wf s" "run_key kw1 = Some k" "run_key kw2 = Some k"
    and "list_all (\<lambda>e. call_key e \<noteq> Some k) es"
  shows "end_counts (trace_prerun kw1 s) = end_counts s @ [0]"
    and "end_counts (run es (trace_prerun kw1 s)) ! length (spans s) = 0"
    and "end_counts (run es' (trace_postrun kw2 (run es (trace_prerun kw1 s)))) ! length (spans s)
           = Suc 0"
proof -
  have o: "opens k s (trace_prerun kw1 s)" by (rule trace_prerun_opens) fact
  then show "end_counts (trace_prerun kw1 s) = end_counts s @ [0]" by (simp add: opens_def)
  have "open_at k (length (spans s)) (trace_prerun kw1 s)"
    using assms(1) o by (rule open_at_opens)
  then have 2: "open_at k (length (spans s)) (run es (trace_prerun kw1 s))"
    using assms(4) by (rule open_at_run)
  then show "end_counts (run es (trace_prerun kw1 s)) ! length (spans s) = 0"
    by (simp add: open_at_def)
  from 2 obtain a where
    "map_of (span_dict (run es (trace_prerun kw1 s))) k = Some (length (spans s), a)"
    by (rule open_at_entry)
  with assms(3) have "closes k (run es (trace_prerun kw1 s))
     (trace_postrun kw2 (run es (trace_prerun kw1 s)))"
    by (rule trace_postrun_closes)
  with 2 have "closed_at (length (spans s)) (Suc 0)
     (trace_postrun kw2 (run es (trace_prerun kw1 s)))"
    by (rule closed_at_closes)
  then have "closed_at (length (spans s)) (Suc 0)
     (run es' (trace_postrun kw2 (run es (trace_prerun kw1 s))))"
    by (rule closed_at_run)
  then show "end_counts (run es' (trace_postrun kw2 (run es (trace_prerun kw1 s)))) !
      length (spans s) = Suc 0"
    by (simp add: closed_at_def)
qed

lemma publish_direction:
  assumes "wf s" "publish_key kw1 = Some k" "publish_key kw2 = Some k"
    and "list_all (\<lambda>e. call_key e \<noteq> Some k) es"
  shows "end_counts (trace_before_publish kw1 s) = end_counts s @ [0]"
    and "end_counts (run es (trace_before_publish kw1 s)) ! length (spans s) = 0"
    and "end_counts (run es' (trace_after_publish kw2 (run es (trace_before_publish kw1 s)))) !
           length (spans s) = Suc 0"
proof -
  have o: "opens k s (trace_before_publish kw1 s)" by (rule trace_before_publish_opens) fact
  then show "end_counts (trace_before_publish kw1 s) = end_counts s @ [0]"
    by (simp add: opens_def)
  have "open_at k (length (spans s)) (trace_before_publish kw1 s)"
    using assms(1) o by (rule open_at_opens)
  then have 2: "open_at k (length (spans s)) (run es (trace_before_publish kw1 s))"
    using assms(4) by (rule open_at_run)
  then show "end_counts (run es (trace_before_publish kw1 s)) ! length (spans s) = 0"
    by (simp add: open_at_def)
  from 2 obtain a where
    "map_of (span_dict (run es (trace_before_publish kw1 s))) k = Some (length (spans s), a)"
    by (rule open_at_entry)
  with assms(3) have "closes k (run es (trace_before_publish kw1 s))
     (trace_after_publish kw2 (run es (trace_before_publish kw1 s)))"
    by (rule trace_after_publish_closes)
  with 2 have "closed_at (length (spans s)) (Suc 0)
     (trace_after_publish kw2 (run es (trace_before_publish kw1 s)))"
    by (rule closed_at_closes)
  then have "closed_at (length (spans s)) (Suc 0)
     (run es' (trace_after_publish kw2 (run es (trace_before_publish kw1 s))))"
    by (rule closed_at_run)
  then show "end_counts (run es' (trace_after_publish kw2 (run es (trace_before_publish kw1 s)))) !
      length (spans s) = Suc 0"
    by (simp add: closed_at_def)
qed

lemma other_receivers_end_nothing:
  assumes "rc \<noteq> Trace_postrun" "rc \<noteq> Trace_after_publish"
  shows "take (length (spans s)) (end_counts (receive rc kw s)) = end_counts s"
proof (cases rc)
  case Trace_prerun
  then show ?thesis
    using trace_prerun_effect [of s kw]
    by (auto simp: take_end_counts_keeps take_end_counts_opens)
next
  case Trace_before_publish
  then show ?thesis
    using trace_before_publish_effect [of s kw]
    by (auto simp: take_end_counts_keeps take_end_counts_opens)
next
  case Trace_failure
  then show ?thesis by (simp add: take_end_counts_keeps trace_failure_effect)
next
  case Trace_retry
  then show ?thesis by (simp add: take_end_counts_keeps trace_retry_effect)
next
  case (Foreign n)
  then show ?thesis by (simp add: end_counts_def)
qed (use assms in simp_all)

text \<open>
  Claim C1. From a well-formed state, a \<open>trace_prerun\<close> call whose payload carries a task
  and a task id starts exactly one span, which has not been ended. As long as no other
  prerun or postrun call for the same task and task id intervenes, the span stays open;
  the \<open>trace_postrun\<close> call for the same task and task id ends it, and whatever calls
  follow, it has been ended exactly once. The same holds for \<open>trace_before_publish\<close> and
  \<open>trace_after_publish\<close>. A call of any receiver other than \<open>trace_postrun\<close> and
  \<open>trace_after_publish\<close> ends no span.
\<close>

theorem span_closed_exactly_once:
  assumes "wf s"
  shows
    "(run_key kw1 = Some k \<and> run_key kw2 = Some k \<and>
      list_all (\<lambda>e. call_key e \<noteq> Some k) es \<longrightarrow>
        end_counts (trace_prerun kw1 s) = end_counts s @ [0] \<and>
        end_counts (run es (trace_prerun kw1 s)) ! length (spans s) = 0 \<and>
        end_counts (run es' (trace_postrun kw2 (run es (trace_prerun kw1 s)))) !
          length (spans s) = 1) \<and>
     (publish_key kw1 = Some k \<and> publish_key kw2 = Some k \<and>
      list_all (\<lambda>e. call_key e \<noteq> Some k) es \<longrightarrow>
        end_counts (trace_before_publish kw1 s) = end_counts s @ [0] \<and>
        end_counts (run es (trace_before_publish kw1 s)) ! length (spans s) = 0 \<and>
        end_counts (run es' (trace_after_publish kw2 (run es (trace_before_publish kw1 s)))) !
          length (spans s) = 1) \<and>
     (rc \<noteq> Trace_postrun \<and> rc \<noteq> Trace_after_publish \<longrightarrow>
        take (length (spans s)) (end_counts (receive rc kw s)) = end_counts s)"
proof -
  have 1: "run_key kw1 = Some k \<and> run_key kw2 = Some k \<and>
      list_all (\<lambda>e. call_key e \<noteq> Some k) es \<longrightarrow>
        end_counts (trace_prerun kw1 s) = end_counts s @ [0] \<and>
        end_counts (run es (trace_prerun kw1 s)) ! length (spans s) = 0 \<and>
        end_counts (run es' (trace_postrun kw2 (run es (trace_prerun kw1 s)))) !
          length (spans s) = 1"
  proof
    assume h: "run_key kw1 = Some k \<and> run_key kw2 = Some k \<and>
      list_all (\<lambda>e. call_key e \<noteq> Some k) es"
    then have a: "run_key kw1 = Some k" and b: "run_key kw2 = Some k"
      and c: "list_all (\<lambda>e. call_key e \<noteq> Some k) es" by simp_all
    from run_direction [OF assms a b c] show
      "end_counts (trace_prerun kw1 s) = end_counts s @ [0] \<and>
        end_counts (run es (trace_prerun kw1 s)) ! length (spans s) = 0 \<and>
        end_counts (run es' (trace_postrun kw2 (run es (trace_prerun kw1 s)))) !
          length (spans s) = 1" by simp
  qed
  have 2: "publish_key kw1 = Some k \<and> publish_key kw2 = Some k \<and>
      list_all (\<lambda>e. call_key e \<noteq> Some k) es \<longrightarrow>
        end_counts (trace_before_publish kw1 s) = end_counts s @ [0] \<and>
        end_counts (run es (trace_before_publish kw1 s)) ! length (spans s) = 0 \<and>
        end_counts (run es' (trace_after_publish kw2 (run es (trace_before_publish kw1 s)))) !
          length (spans s) = 1"
  proof
    assume h: "publish_key kw1 = Some k \<and> publish_key kw2 = Some k \<and>
      list_all (\<lambda>e. call_key e \<noteq> Some k) es"
    then have a: "publish_key kw1 = Some k" and b: "publish_key kw2 = Some k"
      and c: "list_all (\<lambda>e. call_key e \<noteq> Some k) es" by simp_all
    from publish_direction [OF assms a b c] show
      "end_counts (trace_before_publish kw1 s) = end_counts s @ [0] \<and>
        end_counts (run es (trace_before_publish kw1 s)) ! length (spans s) = 0 \<and>
        end_counts (run es' (trace_after_publish kw2 (run es (trace_before_publish kw1 s)))) !
          length (spans s) = 1" by simp
  qed
  have 3: "rc \<noteq> Trace_postrun \<and> rc \<noteq> Trace_after_publish \<longrightarrow>
        take (length (spans s)) (end_counts (receive rc kw s)) = end_counts s"
    by (simp add: other_receivers_end_nothing)
  from 1 2 3 show ?thesis by (intro conjI)
qed

theorem span_closed_exactly_once_witness:
  "wf initial \<and>
   run_key run_kwargs = Some (1, ''a1'', False) \<and>
   list_all (\<lambda>e. call_key e \<noteq> Some (1, ''a1'', False)) between_calls \<and>
   end_counts (trace_prerun run_kwargs initial) = [0] \<and>
   end_counts (run between_calls (trace_prerun run_kwargs initial)) = [0, 1] \<and>
   end_counts
      (run [(Trace_postrun, run_kwargs), (Trace_after_publish, publish_kwargs)]
        (trace_postrun run_kwargs (run between_calls (trace_prerun run_kwargs initial)))) = [1, 1]"
proof -
  have h: "wf initial" "run_key run_kwargs = Some (1, ''a1'', False)"
    "list_all (\<lambda>e. call_key e \<noteq> Some (1, ''a1'', False)) between_calls"
    by (simp_all add: wf_initial run_key_def publish_key_def example_defs between_calls_def)
  have e: "end_counts (trace_prerun run_kwargs initial) = [0]"
    "end_counts (run between_calls (trace_prerun run_kwargs initial)) = [0, 1]"
    "end_counts
      (run [(Trace_postrun, run_kwargs), (Trace_after_publish, publish_kwargs)]
        (trace_postrun run_kwargs (run between_calls (trace_prerun run_kwargs initial)))) = [1, 1]"
    by code_simp+
  from span_closed_exactly_once [OF h(1), of run_kwargs "(1, ''a1'', False)" run_kwargs
      between_calls "[(Trace_postrun, run_kwargs), (Trace_after_publish, publish_kwargs)]"] h e
  show ?thesis by simp
qed

lemma run_key_direction: "run_key kw = Some k \<Longrightarrow> \<not> snd (snd k)"
  by (auto simp: run_key_def split: option.splits)

lemma publish_key_direction: "publish_key kw = Some k \<Longrightarrow> snd (snd k)"
  by (auto simp: publish_key_def split: option.splits)

lemma not_publish_calls:
  assumes "snd (snd k)"
    and "list_all (\<lambda>(rc, kw). rc \<noteq> Trace_before_publish \<and> rc \<noteq> Trace_after_publish) es"
  shows "list_all (\<lambda>e. call_key e \<noteq> Some k) es"
  unfolding list_all_iff
proof
  fix e assume e: "e \<in> set es"
  obtain rc kw where rk: "e = (rc, kw)" by (cases e)
  with e assms(2) have "rc \<noteq> Trace_before_publish" "rc \<noteq> Trace_after_publish"
    by (auto simp: list_all_iff)
  then show "call_key e \<noteq> Some k"
    using assms(1) run_key_direction [of kw k] by (cases rc) (auto simp: rk)
qed

lemma not_run_calls:
  assumes "\<not> snd (snd k)"
    and "list_all (\<lambda>(rc, kw). rc \<noteq> Trace_prerun \<and> rc \<noteq> Trace_postrun) es"
  shows "list_all (\<lambda>e. call_key e \<noteq> Some k) es"
  unfolding list_all_iff
proof
  fix e assume e: "e \<in> set es"
  obtain rc kw where rk: "e = (rc, kw)" by (cases e)
  with e assms(2) have "rc \<noteq> Trace_prerun" "rc \<noteq> Trace_postrun"
    by (auto simp: list_all_iff)
  then show "call_key e \<noteq> Some k"
    using assms(1) publish_key_direction [of kw k] by (cases rc) (auto simp: rk)
qed

lemma publish_span_survives:
  assumes "wf s" "publish_key kwp = Some k"
    and "list_all (\<lambda>(rc, kw). rc \<noteq> Trace_before_publish \<and> rc \<noteq> Trace_after_publish) es"
  shows "open_at k (length (spans s)) (run es (trace_before_publish kwp s))"
proof -
  have "open_at k (length (spans s)) (trace_before_publish kwp s)"
    using assms(1) trace_before_publish_opens [OF assms(2)] by (rule open_at_opens)
  moreover have "list_all (\<lambda>e. call_key e \<noteq> Some k) es"
    using publish_key_direction [OF assms(2)] assms(3) by (rule not_publish_calls)
  ultimately show ?thesis by (rule open_at_run)
qed

lemma run_span_survives:
  assumes "wf s" "run_key kwr = Some k"
    and "list_all (\<lambda>(rc, kw). rc \<noteq> Trace_prerun \<and> rc \<noteq> Trace_postrun) es"
  shows "open_at k (length (spans s)) (run es (trace_prerun kwr s))"
proof -
  have "open_at k (length (spans s)) (trace_prerun kwr s)"
    using assms(1) trace_prerun_opens [OF assms(2)] by (rule open_at_opens)
  moreover have "list_all (\<lambda>e. call_key e \<noteq> Some k) es"
    using run_key_direction [OF assms(2)] assms(3) by (rule not_run_calls)
  ultimately show ?thesis by (rule open_at_run)
qed

text \<open>
  Claim C9. A run key and a publish key are never equal, whatever the task and the task
  id. Hence a span attached by \<open>trace_before_publish\<close> stays attached and is not ended by
  any sequence of calls of receivers other than the two publish receivers, in particular
  not by \<open>trace_postrun\<close> for the same task and task id; and a span attached by
  \<open>trace_prerun\<close> stays attached and is not ended by any sequence of calls of receivers
  other than the two run receivers, in particular not by \<open>trace_after_publish\<close>.
\<close>

theorem directions_use_distinct_keys:
  assumes "wf s"
  shows
    "(run_key kw = Some k \<longrightarrow> publish_key kw' \<noteq> Some k) \<and>
     (publish_key kw = Some k \<and>
      list_all (\<lambda>(rc, kw). rc \<noteq> Trace_before_publish \<and> rc \<noteq> Trace_after_publish) es \<longrightarrow>
        map_option fst (map_of (span_dict (run es (trace_before_publish kw s))) k) =
          Some (length (spans s)) \<and>
        end_counts (run es (trace_before_publish kw s)) ! length (spans s) = 0) \<and>
     (run_key kw = Some k \<and>
      list_all (\<lambda>(rc, kw). rc \<noteq> Trace_prerun \<and> rc \<noteq> Trace_postrun) es \<longrightarrow>
        map_option fst (map_of (span_dict (run es (trace_prerun kw s))) k) =
          Some (length (spans s)) \<and>
        end_counts (run es (trace_prerun kw s)) ! length (spans s) = 0)"
proof (intro conjI impI)
  assume "run_key kw = Some k"
  from run_key_direction [OF this] publish_key_direction [of kw' k]
  show "publish_key kw' \<noteq> Some k" by blast
next
  assume h: "publish_key kw = Some k \<and>
      list_all (\<lambda>(rc, kw). rc \<noteq> Trace_before_publish \<and> rc \<noteq> Trace_after_publish) es"
  then have o: "open_at k (length (spans s)) (run es (trace_before_publish kw s))"
    using assms by (simp add: publish_span_survives)
  from o show "map_option fst (map_of (span_dict (run es (trace_before_publish kw s))) k) =
          Some (length (spans s))" by (simp add: open_at_def)
  from o show "end_counts (run es (trace_before_publish kw s)) ! length (spans s) = 0"
    by (simp add: open_at_def)
next
  assume h: "run_key kw = Some k \<and>
      list_all (\<lambda>(rc, kw). rc \<noteq> Trace_prerun \<and> rc \<noteq> Trace_postrun) es"
  then have o: "open_at k (length (spans s)) (run es (trace_prerun kw s))"
    using assms by (simp add: run_span_survives)
  from o show "map_option fst (map_of (span_dict (run es (trace_prerun kw s))) k) =
          Some (length (spans s))" by (simp add: open_at_def)
  from o show "end_counts (run es (trace_prerun kw s)) ! length (spans s) = 0"
    by (simp add: open_at_def)
qed

theorem directions_use_distinct_keys_witness:
  "wf initial \<and>
   run_key run_kwargs = Some (1, ''a1'', False) \<and>
   publish_key publish_kwargs = Some (1, ''a1'', True) \<and>
   list_all (\<lambda>(rc, kw). rc \<noteq> Trace_before_publish \<and> rc \<noteq> Trace_after_publish)
     [(Trace_prerun, run_kwargs), (Trace_postrun, run_kwargs)] \<and>
   map_option fst (map_of (span_dict
       (run [(Trace_prerun, run_kwargs), (Trace_postrun, run_kwargs)]
          (trace_before_publish publish_kwargs initial))) (1, ''a1'', True)) = Some 0 \<and>
   end_counts (run [(Trace_prerun, run_kwargs), (Trace_postrun, run_kwargs)]
          (trace_before_publish publish_kwargs initial)) = [0, 1] \<and>
   list_all (\<lambda>(rc, kw). rc \<noteq> Trace_prerun \<and> rc \<noteq> Trace_postrun)
     [(Trace_before_publish, publish_kwargs), (Trace_after_publish, publish_kwargs)] \<and>
   end_counts (run [(Trace_before_publish, publish_kwargs), (Trace_after_publish, publish_kwargs)]
          (trace_prerun run_kwargs initial)) = [0, 1]"
proof -
  have h: "wf initial" "run_key run_kwargs = Some (1, ''a1'', False)"
    "publish_key publish_kwargs = Some (1, ''a1'', True)"
    by (simp_all add: wf_initial run_key_def publish_key_def example_defs)
  have e: "end_counts (run [(Trace_prerun, run_kwargs), (Trace_postrun, run_kwargs)]
          (trace_before_publish publish_kwargs initial)) = [0, 1]"
    "end_counts (run [(Trace_before_publish, publish_kwargs), (Trace_after_publish, publish_kwargs)]
          (trace_prerun run_kwargs initial)) = [0, 1]"
    by code_simp+
  have l: "length (spans initial) = 0" by (simp add: initial_def)
  from directions_use_distinct_keys [OF h(1), of publish_kwargs "(1, ''a1'', True)" run_kwargs
      "[(Trace_prerun, run_kwargs), (Trace_postrun, run_kwargs)]"]
    directions_use_distinct_keys [OF h(1), of run_kwargs "(1, ''a1'', False)" publish_kwargs
      "[(Trace_before_publish, publish_kwargs), (Trace_after_publish, publish_kwargs)]"]
    h e
  show ?thesis by (simp add: l)
qed

lemma retrieve_span_in_range:
  assumes "wf s" "retrieve_span t i p s = Some (r, a)"
  shows "r < length (spans s)"
  using wf_lookup [OF assms(1), of "(task_ident t, i, p)" r a] assms(2)
  by (simp add: retrieve_span_def)

text \<open>
  Claim C2, as amended. For a task-failure signal that carries exception info, for a task
  with an attached span: \<open>trace_failure\<close> sets the status UNKNOWN, with the \<^verbatim>\<open>str\<close> of
  the exception info as description, on that span unless the task has a \<^verbatim>\<open>throws\<close>
  attribute and the exception is an instance of one of its classes, that is, unless the
  exception's class or one of its base classes is in \<^verbatim>\<open>throws\<close>; in that case the state,
  and with it the status of the span, is left unchanged.
\<close>

theorem failure_status_unless_instance_of_throws:
  assumes "wf s"
    and "kw_sender kw = Some t" "kw_task_id kw = Some i"
    and "retrieve_span t i False s = Some (r, a)"
    and "kw_einfo kw = Some ex"
  shows
    "trace_failure kw s =
       (if expected_error t ex then s
        else set_status r \<lparr>canonical_code = UNKNOWN, description = einfo_str ex\<rparr> s) \<and>
     span_status (spans (trace_failure kw s) ! r) =
       (if expected_error t ex then span_status (spans s ! r)
        else Some \<lparr>canonical_code = UNKNOWN, description = einfo_str ex\<rparr>)"
proof -
  have r: "r < length (spans s)" using assms(1,4) by (rule retrieve_span_in_range)
  have "trace_failure kw s =
       (if expected_error t ex then s
        else set_status r \<lparr>canonical_code = UNKNOWN, description = einfo_str ex\<rparr> s)"
    using trace_failure_present [OF assms(2-5)] by (simp add: expected_error_def)
  then show ?thesis using r by (simp add: set_status_def on_span_nth)
qed

theorem failure_status_unless_instance_of_throws_witness:
  "wf (trace_prerun run_kwargs initial) \<and>
   kw_sender (failure_kwargs value_error) = Some example_task \<and>
   kw_task_id (failure_kwargs value_error) = Some ''a1'' \<and>
   retrieve_span example_task ''a1'' False (trace_prerun run_kwargs initial) =
     Some (0, \<lparr>act_span = 0, end_on_exit = True, token = None\<rparr>) \<and>
   kw_einfo (failure_kwargs value_error) =
     Some \<lparr>exception = value_error, einfo_str = ''Traceback: bad value''\<rparr> \<and>
   \<not> expected_error example_task
       \<lparr>exception = value_error, einfo_str = ''Traceback: bad value''\<rparr> \<and>
   span_status (spans (trace_failure (failure_kwargs value_error)
       (trace_prerun run_kwargs initial)) ! 0) =
     Some \<lparr>canonical_code = UNKNOWN, description = ''Traceback: bad value''\<rparr>"
proof -
  have 1: "wf (trace_prerun run_kwargs initial)"
    using wf_receive [OF wf_initial, of Trace_prerun run_kwargs] by simp
  have 2: "kw_sender (failure_kwargs value_error) = Some example_task"
    and 3: "kw_task_id (failure_kwargs value_error) = Some ''a1''"
    and 5: "kw_einfo (failure_kwargs value_error) =
       Some \<lparr>exception = value_error, einfo_str = ''Traceback: bad value''\<rparr>"
    by (simp_all add: example_defs)
  have 4: "retrieve_span example_task ''a1'' False (trace_prerun run_kwargs initial) =
     Some (0, \<lparr>act_span = 0, end_on_exit = True, token = None\<rparr>)"
    by (simp add: trace_prerun_present [of _ example_task "''a1''"] retrieve_span_def
        example_defs initial_def)
  have 6: "\<not> expected_error example_task
       \<lparr>exception = value_error, einfo_str = ''Traceback: bad value''\<rparr>"
    by (simp add: expected_error_def isinstance_def example_defs)
  from failure_status_unless_instance_of_throws [OF 1 2 3 4 5, THEN conjunct2] 1 2 3 4 5 6
  show ?thesis by simp
qed

text \<open>
  Claim C2 as stated fails for an exception whose class is not in \<^verbatim>\<open>throws\<close> but derives
  from a class that is: with \<^verbatim>\<open>throws = (LookupError,)\<close> and a \<^verbatim>\<open>KeyError\<close>, the class of
  the exception is not in the tuple, yet \<^verbatim>\<open>isinstance\<close> holds and no status is set.
\<close>

theorem failure_status_type_not_in_throws_counterexample:
  "throws example_task = Some [''LookupError''] \<and>
   exc_type key_error \<notin> set [''LookupError''] \<and>
   retrieve_span example_task ''a1'' False (trace_prerun run_kwargs initial) =
     Some (0, \<lparr>act_span = 0, end_on_exit = True, token = None\<rparr>) \<and>
   kw_einfo (failure_kwargs key_error) =
     Some \<lparr>exception = key_error, einfo_str = ''Traceback: missing''\<rparr> \<and>
   span_status (spans (trace_prerun run_kwargs initial) ! 0) = None \<and>
   span_status (spans (trace_failure (failure_kwargs key_error)
       (trace_prerun run_kwargs initial)) ! 0) = None"
  by (simp add: example_defs initial_def trace_prerun_def trace_failure_def retrieve_defs
      retrieve_span_def start_span_def use_span_def activation_enter_def attach_span_def
      logger_def isinstance_def)

text \<open>
  Claim C3. For a task-retry signal that carries the task, the task id of the request and
  a reason, with a span attached for the task and task id: \<open>trace_retry\<close> sets the
  attribute \<^verbatim>\<open>celery.retry.reason\<close> of that span to the \<^verbatim>\<open>str\<close> of the reason; no span is
  ended, the table and the current span are unchanged, and the span is still attached.
\<close>

theorem retry_sets_reason_and_keeps_span_open:
  assumes "wf s"
    and "kw_sender kw = Some t" "kw_request_id kw = Some i" "kw_reason kw = Some rs"
    and "retrieve_span t i False s = Some (r, a)"
  shows
    "map_of (attributes (spans (trace_retry kw s) ! r)) ''celery.retry.reason'' =
       Some (str_reason rs) \<and>
     end_counts (trace_retry kw s) = end_counts s \<and>
     span_dict (trace_retry kw s) = span_dict s \<and>
     current_span (trace_retry kw s) = current_span s \<and>
     retrieve_span t i False (trace_retry kw s) = Some (r, a)"
proof -
  have r: "r < length (spans s)" using assms(1,5) by (rule retrieve_span_in_range)
  have eq: "trace_retry kw s = set_attribute r TASK_RETRY_REASON_KEY (str_reason rs) s"
    by (rule trace_retry_present) fact+
  have "end_counts (trace_retry kw s) = end_counts s"
    unfolding eq set_attribute_def by (rule end_counts_on_span_keep) simp
  then show ?thesis
    using r assms(5)
    by (simp add: eq set_attribute_def on_span_nth update_conv' retrieve_span_def
        TASK_RETRY_REASON_KEY_def)
qed

theorem retry_sets_reason_and_keeps_span_open_witness:
  "wf (trace_prerun run_kwargs initial) \<and>
   kw_sender retry_kwargs = Some example_task \<and>
   kw_request_id retry_kwargs = Some ''a1'' \<and>
   kw_reason retry_kwargs = Some (ExcReason value_error) \<and>
   retrieve_span example_task ''a1'' False (trace_prerun run_kwargs initial) =
     Some (0, \<lparr>act_span = 0, end_on_exit = True, token = None\<rparr>) \<and>
   map_of (attributes (spans (trace_retry retry_kwargs (trace_prerun run_kwargs initial)) ! 0))
     ''celery.retry.reason'' = Some ''bad value'' \<and>
   end_counts (trace_retry retry_kwargs (trace_prerun run_kwargs initial)) = [0]"
proof -
  have 1: "wf (trace_prerun run_kwargs initial)"
    using wf_receive [OF wf_initial, of Trace_prerun run_kwargs] by simp
  have 2: "kw_sender retry_kwargs = Some example_task"
    and 3: "kw_request_id retry_kwargs = Some ''a1''"
    and 4: "kw_reason retry_kwargs = Some (ExcReason value_error)"
    by (simp_all add: example_defs)
  have 5: "retrieve_span example_task ''a1'' False (trace_prerun run_kwargs initial) =
     Some (0, \<lparr>act_span = 0, end_on_exit = True, token = None\<rparr>)"
    by (simp add: trace_prerun_present [of _ example_task "''a1''"] retrieve_span_def
        example_defs initial_def)
  have 6: "end_counts (trace_prerun run_kwargs initial) = [0]"
    by (simp add: trace_prerun_present [of _ example_task "''a1''"] end_counts_def
        example_defs initial_def)
  have 7: "str_reason (ExcReason value_error) = ''bad value''"
    by (simp add: example_defs)
  from retry_sets_reason_and_keeps_span_open [OF 1 2 3 4 5] 1 2 3 4 5 6 7
  show ?thesis by simp
qed

lemma not_foreign_not_registered:
  assumes "\<forall>sg. list_all is_foreign (reg sg)" "\<not> is_foreign r"
  shows "r \<notin> set (reg sg)"
  using assms by (auto simp: list_all_iff)

lemma instrument_apply:
  assumes "\<forall>sg. list_all is_foreign (reg sg)"
  shows "instrument reg sg =
     reg sg @ (case sg of task_prerun \<Rightarrow> [Trace_prerun] | task_postrun \<Rightarrow> [Trace_postrun]
        | before_task_publish \<Rightarrow> [Trace_before_publish]
        | after_task_publish \<Rightarrow> [Trace_after_publish]
        | task_failure \<Rightarrow> [Trace_failure] | task_retry \<Rightarrow> [Trace_retry] | _ \<Rightarrow> [])"
  using not_foreign_not_registered [OF assms]
  by (cases sg) (simp_all add: instrument_def connect_def)

lemma uninstrument_apply:
  "uninstrument reg sg =
     (case sg of task_prerun \<Rightarrow> remove1 Trace_prerun (reg sg)
        | task_postrun \<Rightarrow> remove1 Trace_postrun (reg sg)
        | before_task_publish \<Rightarrow> remove1 Trace_before_publish (reg sg)
        | after_task_publish \<Rightarrow> remove1 Trace_after_publish (reg sg)
        | task_failure \<Rightarrow> remove1 Trace_failure (reg sg)
        | task_retry \<Rightarrow> remove1 Trace_retry (reg sg) | _ \<Rightarrow> reg sg)"
  by (cases sg) (simp_all add: uninstrument_def disconnect_def)

text \<open>
  Claim C5. On signals to which none of the six receivers is connected, \<open>instrument\<close>
  connects each receiver to its signal (\<open>task_prerun\<close>, \<open>task_postrun\<close>,
  \<open>before_task_publish\<close>, \<open>after_task_publish\<close>, \<open>task_failure\<close>, \<open>task_retry\<close>) and changes
  no other signal; \<open>uninstrument\<close> afterwards disconnects the six again, so that the
  signals are as they were before and none of the six receivers is connected.
\<close>

theorem instrument_connects_six_uninstrument_disconnects_them:
  assumes "\<forall>sg. list_all is_foreign (reg sg)"
  shows
    "instrument reg =
       reg(task_prerun := reg task_prerun @ [Trace_prerun],
           task_postrun := reg task_postrun @ [Trace_postrun],
           before_task_publish := reg before_task_publish @ [Trace_before_publish],
           after_task_publish := reg after_task_publish @ [Trace_after_publish],
           task_failure := reg task_failure @ [Trace_failure],
           task_retry := reg task_retry @ [Trace_retry]) \<and>
     uninstrument (instrument reg) = reg"
proof
  show "instrument reg =
       reg(task_prerun := reg task_prerun @ [Trace_prerun],
           task_postrun := reg task_postrun @ [Trace_postrun],
           before_task_publish := reg before_task_publish @ [Trace_before_publish],
           after_task_publish := reg after_task_publish @ [Trace_after_publish],
           task_failure := reg task_failure @ [Trace_failure],
           task_retry := reg task_retry @ [Trace_retry])"
  proof
    fix sg
    show "instrument reg sg =
       (reg(task_prerun := reg task_prerun @ [Trace_prerun],
           task_postrun := reg task_postrun @ [Trace_postrun],
           before_task_publish := reg before_task_publish @ [Trace_before_publish],
           after_task_publish := reg after_task_publish @ [Trace_after_publish],
           task_failure := reg task_failure @ [Trace_failure],
           task_retry := reg task_retry @ [Trace_retry])) sg"
      by (cases sg) (simp_all add: instrument_apply [OF assms])
  qed
  show "uninstrument (instrument reg) = reg"
  proof
    fix sg
    show "uninstrument (instrument reg) sg = reg sg"
      using not_foreign_not_registered [OF assms, of _ sg]
      by (cases sg) (simp_all add: uninstrument_apply instrument_apply [OF assms] remove1_append)
  qed
qed

theorem instrument_connects_six_uninstrument_disconnects_them_witness:
  "(\<forall>sg. list_all is_foreign (other_app_signals sg)) \<and>
   instrument other_app_signals task_prerun = [Foreign 1, Trace_prerun] \<and>
   instrument other_app_signals task_postrun = [Trace_postrun] \<and>
   instrument other_app_signals before_task_publish = [Trace_before_publish] \<and>
   instrument other_app_signals after_task_publish = [Trace_after_publish] \<and>
   instrument other_app_signals task_failure = [Trace_failure] \<and>
   instrument other_app_signals task_retry = [Trace_retry] \<and>
   instrument other_app_signals task_success = [Foreign 0] \<and>
   instrument other_app_signals task_revoked = [] \<and>
   uninstrument (instrument other_app_signals) = other_app_signals"
proof -
  have h: "\<forall>sg. list_all is_foreign (other_app_signals sg)"
    by (simp add: other_app_signals_def)
  note inst = instrument_connects_six_uninstrument_disconnects_them [OF h]
  have v: "other_app_signals task_prerun = [Foreign 1]" "other_app_signals task_postrun = []"
    "other_app_signals before_task_publish = []" "other_app_signals after_task_publish = []"
    "other_app_signals task_failure = []" "other_app_signals task_retry = []"
    "other_app_signals task_success = [Foreign 0]" "other_app_signals task_revoked = []"
    by (simp_all add: other_app_signals_def)
  have i: "instrument other_app_signals task_prerun = [Foreign 1, Trace_prerun]"
    "instrument other_app_signals task_postrun = [Trace_postrun]"
    "instrument other_app_signals before_task_publish = [Trace_before_publish]"
    "instrument other_app_signals after_task_publish = [Trace_after_publish]"
    "instrument other_app_signals task_failure = [Trace_failure]"
    "instrument other_app_signals task_retry = [Trace_retry]"
    "instrument other_app_signals task_success = [Foreign 0]"
    "instrument other_app_signals task_revoked = []"
    unfolding inst [THEN conjunct1] by (simp_all add: v)
  from h i inst [THEN conjunct2] show ?thesis by (intro conjI)
qed

lemma map_of_fold_update_other:
  assumes "k \<notin> fst ` set ctx"
  shows "map_of (fold (\<lambda>(k, v). AList.update k v) ctx al) k = map_of al k"
  using assms
proof (induction ctx arbitrary: al)
  case Nil
  then show ?case by simp
next
  case (Cons kv ctx)
  obtain k' v' where kv: "kv = (k', v')" by (cases kv)
  with Cons.prems have "k' \<noteq> k" "k \<notin> fst ` set ctx" by auto
  with Cons.IH [of "AList.update k' v' al"] show ?case by (simp add: kv update_conv')
qed

lemma attributes_activation_exit:
  "attributes (spans (activation_exit a s) ! r) = attributes (spans s ! r)"
  by (simp add: activation_exit_def span_end_def on_span_def Let_def nth_list_update)

lemma before_publish_attributes:
  assumes "kw_sender kw = Some t" "kw_message_id kw = Some i"
  shows "attributes (spans (trace_before_publish kw s) ! length (spans s)) =
     fold (\<lambda>(k, v). AList.update k v) (kw_context kw)
       [(TASK_TAG_KEY, TASK_APPLY_ASYNC), (MESSAGE_ID_ATTRIBUTE_NAME, i),
        (TASK_NAME_KEY, task_name t)]"
  by (simp add: trace_before_publish_present [OF assms])

lemma postrun_attributes:
  assumes "kw_task kw = Some t" "kw_task_id kw = Some i"
    and "retrieve_span t i False s = Some (r, a)" "r < length (spans s)"
  shows "attributes (spans (trace_postrun kw s) ! r) =
     AList.update TASK_NAME_KEY (task_name t)
       (fold (\<lambda>(k, v). AList.update k v) (kw_context kw @ request t)
          (AList.update TASK_TAG_KEY TASK_RUN (attributes (spans s ! r))))"
  using assms(4)
  by (simp add: trace_postrun_present [OF assms(1-3)] attributes_activation_exit on_span_nth)

text \<open>
  Claim C6. The span started by \<open>trace_before_publish\<close> carries
  \<^verbatim>\<open>messaging.message_id\<close> equal to the task id of the message, \<^verbatim>\<open>celery.task_name\<close>
  equal to the task's name and \<^verbatim>\<open>celery.action\<close> equal to \<^verbatim>\<open>apply_async\<close>; after
  \<open>trace_postrun\<close> the run span carries \<^verbatim>\<open>celery.action\<close> equal to \<^verbatim>\<open>run\<close> and
  \<^verbatim>\<open>celery.task_name\<close> equal to the task's name. The attributes that
  \<^verbatim>\<open>set_attributes_from_context\<close> records after them must not use the same names; for
  \<^verbatim>\<open>celery.task_name\<close> in \<open>trace_postrun\<close>, which is set last, nothing is required.
\<close>

theorem recorded_attributes_match_payload:
  assumes "wf s"
  shows
    "(kw_sender kw = Some t \<and> kw_message_id kw = Some i \<and>
      ''celery.action'' \<notin> fst ` set (kw_context kw) \<and>
      ''messaging.message_id'' \<notin> fst ` set (kw_context kw) \<and>
      ''celery.task_name'' \<notin> fst ` set (kw_context kw) \<longrightarrow>
        map_of (attributes (spans (trace_before_publish kw s) ! length (spans s)))
          ''messaging.message_id'' = Some i \<and>
        map_of (attributes (spans (trace_before_publish kw s) ! length (spans s)))
          ''celery.task_name'' = Some (task_name t) \<and>
        map_of (attributes (spans (trace_before_publish kw s) ! length (spans s)))
          ''celery.action'' = Some ''apply_async'') \<and>
     (kw_task kw = Some t \<and> kw_task_id kw = Some i \<and>
      retrieve_span t i False s = Some (r, a) \<and>
      ''celery.action'' \<notin> fst ` set (kw_context kw @ request t) \<longrightarrow>
        map_of (attributes (spans (trace_postrun kw s) ! r)) ''celery.action'' = Some ''run'' \<and>
        map_of (attributes (spans (trace_postrun kw s) ! r)) ''celery.task_name'' =
          Some (task_name t))"
proof (intro conjI impI)
  assume h: "kw_sender kw = Some t \<and> kw_message_id kw = Some i \<and>
      ''celery.action'' \<notin> fst ` set (kw_context kw) \<and>
      ''messaging.message_id'' \<notin> fst ` set (kw_context kw) \<and>
      ''celery.task_name'' \<notin> fst ` set (kw_context kw)"
  then have eq: "attributes (spans (trace_before_publish kw s) ! length (spans s)) =
     fold (\<lambda>(k, v). AList.update k v) (kw_context kw)
       [(TASK_TAG_KEY, TASK_APPLY_ASYNC), (MESSAGE_ID_ATTRIBUTE_NAME, i),
        (TASK_NAME_KEY, task_name t)]"
    by (simp add: before_publish_attributes)
  from h show "map_of (attributes (spans (trace_before_publish kw s) ! length (spans s)))
          ''messaging.message_id'' = Some i"
    by (simp add: eq map_of_fold_update_other TASK_TAG_KEY_def MESSAGE_ID_ATTRIBUTE_NAME_def
        TASK_NAME_KEY_def)
  from h show "map_of (attributes (spans (trace_before_publish kw s) ! length (spans s)))
          ''celery.task_name'' = Some (task_name t)"
    by (simp add: eq map_of_fold_update_other TASK_TAG_KEY_def MESSAGE_ID_ATTRIBUTE_NAME_def
        TASK_NAME_KEY_def)
  from h show "map_of (attributes (spans (trace_before_publish kw s) ! length (spans s)))
          ''celery.action'' = Some ''apply_async''"
    by (simp add: eq map_of_fold_update_other TASK_TAG_KEY_def MESSAGE_ID_ATTRIBUTE_NAME_def
        TASK_NAME_KEY_def TASK_APPLY_ASYNC_def)
next
  assume h: "kw_task kw = Some t \<and> kw_task_id kw = Some i \<and>
      retrieve_span t i False s = Some (r, a) \<and>
      ''celery.action'' \<notin> fst ` set (kw_context kw @ request t)"
  then have r: "r < length (spans s)" using assms retrieve_span_in_range by blast
  from h r have eq: "attributes (spans (trace_postrun kw s) ! r) =
     AList.update TASK_NAME_KEY (task_name t)
       (fold (\<lambda>(k, v). AList.update k v) (kw_context kw @ request t)
          (AList.update TASK_TAG_KEY TASK_RUN (attributes (spans s ! r))))"
    by (simp add: postrun_attributes)
  from h have n: "''celery.action'' \<notin> fst ` set (kw_context kw @ request t)" by simp
  show "map_of (attributes (spans (trace_postrun kw s) ! r)) ''celery.action'' = Some ''run''"
    unfolding eq
    by (simp add: update_conv' map_of_fold_update_other [OF n] TASK_TAG_KEY_def TASK_NAME_KEY_def
        TASK_RUN_def del: fold_append)
  show "map_of (attributes (spans (trace_postrun kw s) ! r)) ''celery.task_name'' =
          Some (task_name t)"
    unfolding eq by (simp add: update_conv' TASK_NAME_KEY_def)
qed

theorem recorded_attributes_match_payload_witness:
  "wf initial \<and>
   kw_sender publish_kwargs = Some example_task \<and>
   kw_message_id publish_kwargs = Some ''a1'' \<and>
   kw_context publish_kwargs = [(''celery.exchange'', ''default'')] \<and>
   attributes (spans (trace_before_publish publish_kwargs initial) ! 0) =
     [(''celery.action'', ''apply_async''), (''messaging.message_id'', ''a1''),
      (''celery.task_name'', ''tasks.add''), (''celery.exchange'', ''default'')] \<and>
   wf (trace_prerun run_kwargs initial) \<and>
   kw_task run_kwargs = Some example_task \<and> kw_task_id run_kwargs = Some ''a1'' \<and>
   retrieve_span example_task ''a1'' False (trace_prerun run_kwargs initial) =
     Some (0, \<lparr>act_span = 0, end_on_exit = True, token = None\<rparr>) \<and>
   kw_context run_kwargs @ request example_task = [(''celery.hostname'', ''worker1'')] \<and>
   map_of (attributes (spans (trace_postrun run_kwargs (trace_prerun run_kwargs initial)) ! 0))
     ''celery.action'' = Some ''run'' \<and>
   map_of (attributes (spans (trace_postrun run_kwargs (trace_prerun run_kwargs initial)) ! 0))
     ''celery.task_name'' = Some ''tasks.add''"
proof -
  have 1: "wf initial" by (rule wf_initial)
  have 2: "wf (trace_prerun run_kwargs initial)"
    using wf_receive [OF wf_initial, of Trace_prerun run_kwargs] by simp
  have 3: "kw_sender publish_kwargs = Some example_task"
    "kw_message_id publish_kwargs = Some ''a1''"
    "kw_context publish_kwargs = [(''celery.exchange'', ''default'')]"
    "kw_task run_kwargs = Some example_task" "kw_task_id run_kwargs = Some ''a1''"
    "kw_context run_kwargs @ request example_task = [(''celery.hostname'', ''worker1'')]"
    "task_name example_task = ''tasks.add''"
    by (simp_all add: example_defs)
  have 4: "retrieve_span example_task ''a1'' False (trace_prerun run_kwargs initial) =
     Some (0, \<lparr>act_span = 0, end_on_exit = True, token = None\<rparr>)"
    by (simp add: trace_prerun_present [of _ example_task "''a1''"] retrieve_span_def
        example_defs initial_def)
  have 5: "attributes (spans (trace_before_publish publish_kwargs initial) ! 0) =
     [(''celery.action'', ''apply_async''), (''messaging.message_id'', ''a1''),
      (''celery.task_name'', ''tasks.add''), (''celery.exchange'', ''default'')]"
    by code_simp
  from recorded_attributes_match_payload [OF 2, of run_kwargs example_task "''a1''" 0
      "\<lparr>act_span = 0, end_on_exit = True, token = None\<rparr>"]
    recorded_attributes_match_payload [OF 1, of publish_kwargs example_task "''a1''"]
    1 2 3 4 5
  show ?thesis by simp
qed

lemma failure_without_einfo_helper:
  assumes "kw_sender kw = Some t" "kw_task_id kw = Some i" "kw_einfo kw = None"
  shows "trace_failure kw s = s"
  using assms by (simp add: trace_failure_def retrieve_defs split: option.splits)

lemma spans_set_status:
  "map (\<lambda>sp. sp\<lparr>span_status := None\<rparr>) (spans (set_status r st s)) =
   map (\<lambda>sp. sp\<lparr>span_status := None\<rparr>) (spans s)"
  unfolding set_status_def by (rule nth_equalityI) (simp_all add: on_span_nth)

lemma trace_failure_sets_status:
  assumes "kw_sender kw = Some t" "kw_task_id kw = Some i"
    and "retrieve_span t i False s = Some (r, a)" "kw_einfo kw = Some ex"
    and "\<not> expected_error t ex"
  shows "trace_failure kw s =
     set_status r \<lparr>canonical_code = UNKNOWN, description = einfo_str ex\<rparr> s"
  using trace_failure_present [OF assms(1-4)] assms(5) by (simp add: expected_error_def)

lemma trace_failure_spans_unchanged:
  assumes "kw_sender kw = None \<or> kw_task_id kw = None \<or> kw_einfo kw = None \<or>
     (\<exists>t i. kw_sender kw = Some t \<and> kw_task_id kw = Some i \<and>
        retrieve_span t i False s = None) \<or>
     (\<exists>t ex. kw_sender kw = Some t \<and> kw_einfo kw = Some ex \<and> expected_error t ex)"
  shows "spans (trace_failure kw s) = spans s"
proof (cases "kw_sender kw = None \<or> kw_task_id kw = None")
  case True
  then have "only_logged s (trace_failure kw s)" by (rule trace_failure_absent)
  then show ?thesis by (simp add: only_logged_def)
next
  case False
  then obtain t i where ti: "kw_sender kw = Some t" "kw_task_id kw = Some i" by auto
  show ?thesis
  proof (cases "retrieve_span t i False s")
    case None
    with ti show ?thesis by (simp add: trace_failure_def retrieve_defs)
  next
    case (Some ra)
    obtain r a where ra: "retrieve_span t i False s = Some (r, a)" using Some by (cases ra) simp
    show ?thesis
    proof (cases "kw_einfo kw")
      case None
      with ti have "trace_failure kw s = s" by (rule failure_without_einfo_helper)
      then show ?thesis by simp
    next
      case (Some ex)
      with assms ti ra have "expected_error t ex" by auto
      with trace_failure_present [OF ti ra Some] show ?thesis
        by (simp add: expected_error_def)
    qed
  qed
qed

lemma trace_failure_frame:
  "map (\<lambda>sp. sp\<lparr>span_status := None\<rparr>) (spans (trace_failure kw s)) =
     map (\<lambda>sp. sp\<lparr>span_status := None\<rparr>) (spans s)"
  "span_dict (trace_failure kw s) = span_dict s"
  "current_span (trace_failure kw s) = current_span s"
proof -
  have "map (\<lambda>sp. sp\<lparr>span_status := None\<rparr>) (spans (trace_failure kw s)) =
     map (\<lambda>sp. sp\<lparr>span_status := None\<rparr>) (spans s) \<and>
    span_dict (trace_failure kw s) = span_dict s \<and>
    current_span (trace_failure kw s) = current_span s"
  proof (cases "kw_sender kw = None \<or> kw_task_id kw = None")
    case True
    then have "only_logged s (trace_failure kw s)" by (rule trace_failure_absent)
    then show ?thesis by (simp add: only_logged_def)
  next
    case False
    then obtain t i where ti: "kw_sender kw = Some t" "kw_task_id kw = Some i" by auto
    show ?thesis
    proof (cases "retrieve_span t i False s")
      case None
      with ti have "trace_failure kw s = s" by (simp add: trace_failure_def retrieve_defs)
      then show ?thesis by simp
    next
      case (Some ra)
      obtain r a where ra: "retrieve_span t i False s = Some (r, a)"
        using Some by (cases ra) simp
      show ?thesis
      proof (cases "kw_einfo kw")
        case None
        with ti have "trace_failure kw s = s" by (rule failure_without_einfo_helper)
        then show ?thesis by simp
      next
        case (Some ex)
        from trace_failure_present [OF ti ra Some] show ?thesis
          by (simp add: spans_set_status) (simp add: set_status_def)
      qed
    qed
  qed
  then show
    "map (\<lambda>sp. sp\<lparr>span_status := None\<rparr>) (spans (trace_failure kw s)) =
       map (\<lambda>sp. sp\<lparr>span_status := None\<rparr>) (spans s)"
    "span_dict (trace_failure kw s) = span_dict s"
    "current_span (trace_failure kw s) = current_span s"
    by simp_all
qed

text \<open>
  Claim C7. From a well-formed state, \<open>trace_failure\<close> records a failure as a status of the
  span attached for the task and task id, and as nothing else. When the payload carries
  the task, the task id and the exception info, a span is attached, and the error is not
  an expected one, the list of spans afterwards is the list before with the status of that
  one span set to UNKNOWN, with the \<^verbatim>\<open>str\<close> of the exception info as description, and
  nothing is logged. In every other case (an identifier or the exception info absent, no
  span attached, or an expected error) the spans are exactly as before. In all cases every
  span is as before up to its status, and the table and the current span are unchanged.
  The source has no \<^verbatim>\<open>raise\<close> and no \<^verbatim>\<open>return\<close> of a value, and it guards the two
  things that may be missing (\<^verbatim>\<open>einfo\<close> by the test for \<^verbatim>\<open>None\<close>, \<^verbatim>\<open>throws\<close> by
  \<^verbatim>\<open>hasattr\<close>); both guards are branches of \<open>trace_failure\<close>, whose only result is the
  new state: the exception of the task is read from the payload and neither raised again
  nor handed back.
\<close>

theorem failure_only_annotates_status:
  assumes "wf s"
  shows
    "(kw_sender kw = Some t \<and> kw_task_id kw = Some i \<and>
      retrieve_span t i False s = Some (r, a) \<and> kw_einfo kw = Some ex \<and>
      \<not> expected_error t ex \<longrightarrow>
        spans (trace_failure kw s) =
          (spans s)[r := (spans s ! r)
             \<lparr>span_status := Some \<lparr>canonical_code = UNKNOWN, description = einfo_str ex\<rparr>\<rparr>] \<and>
        span_status (spans (trace_failure kw s) ! r) =
          Some \<lparr>canonical_code = UNKNOWN, description = einfo_str ex\<rparr> \<and>
        log_records (trace_failure kw s) = log_records s) \<and>
     (kw_sender kw = None \<or> kw_task_id kw = None \<or> kw_einfo kw = None \<or>
      (\<exists>t i. kw_sender kw = Some t \<and> kw_task_id kw = Some i \<and>
         retrieve_span t i False s = None) \<or>
      (\<exists>t ex. kw_sender kw = Some t \<and> kw_einfo kw = Some ex \<and> expected_error t ex) \<longrightarrow>
        spans (trace_failure kw s) = spans s) \<and>
     map (\<lambda>sp. sp\<lparr>span_status := None\<rparr>) (spans (trace_failure kw s)) =
       map (\<lambda>sp. sp\<lparr>span_status := None\<rparr>) (spans s) \<and>
     span_dict (trace_failure kw s) = span_dict s \<and>
     current_span (trace_failure kw s) = current_span s"
proof -
  have 1: "kw_sender kw = Some t \<and> kw_task_id kw = Some i \<and>
      retrieve_span t i False s = Some (r, a) \<and> kw_einfo kw = Some ex \<and>
      \<not> expected_error t ex \<longrightarrow>
        spans (trace_failure kw s) =
          (spans s)[r := (spans s ! r)
             \<lparr>span_status := Some \<lparr>canonical_code = UNKNOWN, description = einfo_str ex\<rparr>\<rparr>] \<and>
        span_status (spans (trace_failure kw s) ! r) =
          Some \<lparr>canonical_code = UNKNOWN, description = einfo_str ex\<rparr> \<and>
        log_records (trace_failure kw s) = log_records s"
  proof
    assume h: "kw_sender kw = Some t \<and> kw_task_id kw = Some i \<and>
      retrieve_span t i False s = Some (r, a) \<and> kw_einfo kw = Some ex \<and>
      \<not> expected_error t ex"
    then have r: "r < length (spans s)" using assms retrieve_span_in_range by blast
    from h have "trace_failure kw s =
       set_status r \<lparr>canonical_code = UNKNOWN, description = einfo_str ex\<rparr> s"
      by (simp add: trace_failure_sets_status)
    with r show "spans (trace_failure kw s) =
          (spans s)[r := (spans s ! r)
             \<lparr>span_status := Some \<lparr>canonical_code = UNKNOWN, description = einfo_str ex\<rparr>\<rparr>] \<and>
        span_status (spans (trace_failure kw s) ! r) =
          Some \<lparr>canonical_code = UNKNOWN, description = einfo_str ex\<rparr> \<and>
        log_records (trace_failure kw s) = log_records s"
      by (simp add: set_status_def on_span_def)
  qed
  have 2: "kw_sender kw = None \<or> kw_task_id kw = None \<or> kw_einfo kw = None \<or>
      (\<exists>t i. kw_sender kw = Some t \<and> kw_task_id kw = Some i \<and>
         retrieve_span t i False s = None) \<or>
      (\<exists>t ex. kw_sender kw = Some t \<and> kw_einfo kw = Some ex \<and> expected_error t ex) \<longrightarrow>
        spans (trace_failure kw s) = spans s"
    by (rule impI) (rule trace_failure_spans_unchanged)
  from 1 2 trace_failure_frame [of kw s] show ?thesis by (intro conjI)
qed

theorem failure_only_annotates_status_witness:
  "wf (trace_prerun run_kwargs initial) \<and>
   kw_sender (failure_kwargs value_error) = Some example_task \<and>
   kw_task_id (failure_kwargs value_error) = Some ''a1'' \<and>
   retrieve_span example_task ''a1'' False (trace_prerun run_kwargs initial) =
     Some (0, \<lparr>act_span = 0, end_on_exit = True, token = None\<rparr>) \<and>
   kw_einfo (failure_kwargs value_error) =
     Some \<lparr>exception = value_error, einfo_str = ''Traceback: bad value''\<rparr> \<and>
   \<not> expected_error example_task
       \<lparr>exception = value_error, einfo_str = ''Traceback: bad value''\<rparr> \<and>
   span_status (spans (trace_prerun run_kwargs initial) ! 0) = None \<and>
   span_status (spans (trace_failure (failure_kwargs value_error)
       (trace_prerun run_kwargs initial)) ! 0) =
     Some \<lparr>canonical_code = UNKNOWN, description = ''Traceback: bad value''\<rparr> \<and>
   log_records (trace_failure (failure_kwargs value_error) (trace_prerun run_kwargs initial)) =
     log_records (trace_prerun run_kwargs initial) \<and>
   kw_sender (failure_kwargs key_error) = Some example_task \<and>
   kw_einfo (failure_kwargs key_error) =
     Some \<lparr>exception = key_error, einfo_str = ''Traceback: missing''\<rparr> \<and>
   expected_error example_task \<lparr>exception = key_error, einfo_str = ''Traceback: missing''\<rparr> \<and>
   spans (trace_failure (failure_kwargs key_error) (trace_prerun run_kwargs initial)) =
     spans (trace_prerun run_kwargs initial) \<and>
   kw_sender no_kwargs = None \<and>
   spans (trace_failure no_kwargs (trace_prerun run_kwargs initial)) =
     spans (trace_prerun run_kwargs initial)"
proof -
  have 1: "wf (trace_prerun run_kwargs initial)"
    using wf_receive [OF wf_initial, of Trace_prerun run_kwargs] by simp
  have 2: "kw_sender (failure_kwargs value_error) = Some example_task"
    "kw_task_id (failure_kwargs value_error) = Some ''a1''"
    "kw_einfo (failure_kwargs value_error) =
       Some \<lparr>exception = value_error, einfo_str = ''Traceback: bad value''\<rparr>"
    "kw_sender (failure_kwargs key_error) = Some example_task"
    "kw_einfo (failure_kwargs key_error) =
       Some \<lparr>exception = key_error, einfo_str = ''Traceback: missing''\<rparr>"
    "kw_sender no_kwargs = None"
    by (simp_all add: example_defs)
  have 3: "retrieve_span example_task ''a1'' False (trace_prerun run_kwargs initial) =
     Some (0, \<lparr>act_span = 0, end_on_exit = True, token = None\<rparr>)"
    "span_status (spans (trace_prerun run_kwargs initial) ! 0) = None"
    by (simp_all add: trace_prerun_present [of _ example_task "''a1''"] retrieve_span_def
        example_defs initial_def)
  have 4: "\<not> expected_error example_task
       \<lparr>exception = value_error, einfo_str = ''Traceback: bad value''\<rparr>"
    "expected_error example_task \<lparr>exception = key_error, einfo_str = ''Traceback: missing''\<rparr>"
    by (simp_all add: expected_error_def isinstance_def example_defs)
  have a0: "spans (trace_failure (failure_kwargs value_error) (trace_prerun run_kwargs initial)) =
      (spans (trace_prerun run_kwargs initial))
        [0 := (spans (trace_prerun run_kwargs initial) ! 0)
           \<lparr>span_status := Some \<lparr>canonical_code = UNKNOWN, description =
              einfo_str \<lparr>exception = value_error, einfo_str = ''Traceback: bad value''\<rparr>\<rparr>\<rparr>] \<and>
    span_status (spans (trace_failure (failure_kwargs value_error)
       (trace_prerun run_kwargs initial)) ! 0) =
     Some \<lparr>canonical_code = UNKNOWN, description =
        einfo_str \<lparr>exception = value_error, einfo_str = ''Traceback: bad value''\<rparr>\<rparr> \<and>
    log_records (trace_failure (failure_kwargs value_error) (trace_prerun run_kwargs initial)) =
     log_records (trace_prerun run_kwargs initial)"
    by (rule failure_only_annotates_status [OF 1, of "failure_kwargs value_error" example_task
        "''a1''" 0 "\<lparr>act_span = 0, end_on_exit = True, token = None\<rparr>"
        "\<lparr>exception = value_error, einfo_str = ''Traceback: bad value''\<rparr>",
        THEN conjunct1, THEN mp])
       (simp add: 2 3 4)
  have a: "span_status (spans (trace_failure (failure_kwargs value_error)
       (trace_prerun run_kwargs initial)) ! 0) =
     Some \<lparr>canonical_code = UNKNOWN, description = ''Traceback: bad value''\<rparr> \<and>
    log_records (trace_failure (failure_kwargs value_error) (trace_prerun run_kwargs initial)) =
     log_records (trace_prerun run_kwargs initial)"
    using a0 [THEN conjunct2] by simp
  have b: "spans (trace_failure (failure_kwargs key_error) (trace_prerun run_kwargs initial)) =
     spans (trace_prerun run_kwargs initial)"
    using failure_only_annotates_status [OF 1, of "failure_kwargs key_error"] 2 4 by blast
  have c: "spans (trace_failure no_kwargs (trace_prerun run_kwargs initial)) =
     spans (trace_prerun run_kwargs initial)"
    using failure_only_annotates_status [OF 1, of no_kwargs] 2 by blast
  from 1 2 3 4 a b c show ?thesis by (intro conjI) simp_all
qed

end
